theory Spec2Isabelle
  imports Main "HOL-Library.Multiset"
begin

section \<open>The asynchronous Pixabay downloader (src/main.py)\<close>

text \<open>
  The program is one class, \<^verbatim>\<open>PixabayDownloaderAsync\<close>, with a constructor, a resolver
  (\<^verbatim>\<open>obtener_urls_imagenes\<close>), a download coroutine (\<^verbatim>\<open>descargar_imagen\<close>) and an
  orchestrator (\<^verbatim>\<open>descargar_imagenes_concurrentes\<close>). Everything it does is input and
  output, so the embedding passes an explicit \<open>world\<close> (file tree, console, network
  traffic) through every function, takes the behaviour of the outside (the replies of the
  servers, the faults of the disk) from an \<open>env\<close>, and returns every exception of the
  source as a value. The interleaving of the download tasks under \<^verbatim>\<open>asyncio.gather\<close> is
  a schedule: the list of task positions in the order in which their awaited I/O completes.
\<close>

subsection \<open>Values and exceptions\<close>

type_synonym bytes = string

text \<open>
  A path is the list of its components below the directory the process runs in; the empty
  list is that directory itself.
\<close>

type_synonym path = "string list"

datatype error =
    ClientError
  | JSONDecodeError
  | KeyError string
  | TypeError
  | FileExistsError
  | FileNotFoundError
  | NotADirectoryError
  | IsADirectoryError
  | PermissionError
  | OSError

text \<open>
  What \<^verbatim>\<open>respuesta.json()\<close> yields: the Python value of a JSON document (an object as
  the list of its members in the order of the text; numbers as integers, nothing here
  looks into them).
\<close>

datatype json =
    JNull
  | JBool bool
  | JNum int
  | JStr string
  | JArr "json list"
  | JObj "(string \<times> json) list"

text \<open>\<^verbatim>\<open>str(n)\<close> of a non-negative integer, as the f-strings of the source format it.\<close>

definition digit_char :: "nat \<Rightarrow> char" where
  "digit_char d = ''0123456789'' ! d"

fun py_str :: "nat \<Rightarrow> string" where
  "py_str n = (if 10 \<le> n then py_str (n div 10) @ [digit_char (n mod 10)] else [digit_char n])"

declare py_str.simps [simp del]

text \<open>
  \<^verbatim>\<open>obj[k]\<close> with a string key: a dict looks the key up (of a repeated key of the JSON
  text the last value stays) and raises KeyError when it is missing; every other value
  raises TypeError.
\<close>

fun getitem :: "json \<Rightarrow> string \<Rightarrow> error + json" where
  "getitem (JObj kvs) k = (case map_of (rev kvs) k of None \<Rightarrow> Inl (KeyError k) | Some v \<Rightarrow> Inr v)"
| "getitem (JArr xs) k = Inl TypeError"
| "getitem (JStr s) k = Inl TypeError"
| "getitem (JNum n) k = Inl TypeError"
| "getitem (JBool b) k = Inl TypeError"
| "getitem JNull k = Inl TypeError"

text \<open>
  \<^verbatim>\<open>for imagen in obj\<close>: a list yields its elements, a dict its keys in insertion order,
  a string its characters; nothing else is iterable.
\<close>

fun iterate :: "json \<Rightarrow> error + json list" where
  "iterate (JArr xs) = Inr xs"
| "iterate (JObj kvs) = Inr (map JStr (rev (remdups (rev (map fst kvs)))))"
| "iterate (JStr s) = Inr (map (\<lambda>c. JStr [c]) s)"
| "iterate (JNum n) = Inl TypeError"
| "iterate (JBool b) = Inl TypeError"
| "iterate JNull = Inl TypeError"

subsection \<open>The outside world\<close>

record params =
  param_key :: string
  param_q :: string
  param_image_type :: string
  param_per_page :: int

datatype api_body = BodyLost | BodyMalformed | BodyJson json

datatype api_reply = ApiUnreachable | ApiResponse nat api_body

datatype img_reply = ImgUnreachable | ImgResponse nat "bytes option"

datatype disk_fault = NoFault | OpenFails | WriteFails nat

text \<open>
  \<open>api\<close> is the reply of the search endpoint to a GET with the given parameters:
  no reply at all (DNS, TLS, timeout), or a status with a body that is lost in transit,
  is not JSON, or parses. \<open>img\<close> is the reply to the GET of an image reference: no reply,
  or a status with a body (\<open>None\<close> when reading it fails). \<open>fault\<close> says what the disk
  does when a file is opened for writing, \<open>may_mkdir\<close> whether a directory may be made.
\<close>

record env =
  api :: "string \<Rightarrow> params \<Rightarrow> api_reply"
  img :: "json \<Rightarrow> img_reply"
  fault :: "path \<Rightarrow> disk_fault"
  may_mkdir :: "path \<Rightarrow> bool"

datatype node = Dir | File bytes

datatype request = OpenSession | ApiGet string params | ImgGet json

record world =
  nodes :: "path \<rightharpoonup> node"
  stdout :: "string list"
  traffic :: "request list"

definition print :: "string \<Rightarrow> world \<Rightarrow> world" where
  "print s w = w\<lparr>stdout := stdout w @ [s]\<rparr>"

definition send :: "request list \<Rightarrow> world \<Rightarrow> world" where
  "send rs w = w\<lparr>traffic := traffic w @ rs\<rparr>"

definition is_dir :: "world \<Rightarrow> path \<Rightarrow> bool" where
  "is_dir w p \<longleftrightarrow> p = [] \<or> nodes w p = Some Dir"

definition exists_path :: "world \<Rightarrow> path \<Rightarrow> bool" where
  "exists_path w p \<longleftrightarrow> p = [] \<or> nodes w p \<noteq> None"

subsection \<open>The file system calls the program makes\<close>

text \<open>
  \<^verbatim>\<open>os.mkdir(p)\<close>: the parent must be a directory, the path must be free and the
  process must be allowed to create it.
\<close>

definition mkdir :: "env \<Rightarrow> path \<Rightarrow> world \<Rightarrow> error option \<times> world" where
  "mkdir E p w =
     (if p = [] then (Some FileExistsError, w)
      else if \<not> exists_path w (butlast p) then (Some FileNotFoundError, w)
      else if \<not> is_dir w (butlast p) then (Some NotADirectoryError, w)
      else if exists_path w p then (Some FileExistsError, w)
      else if \<not> may_mkdir E p then (Some PermissionError, w)
      else (None, w\<lparr>nodes := (nodes w)(p \<mapsto> Dir)\<rparr>))"

text \<open>
  \<^verbatim>\<open>os.makedirs(p, exist_ok=True)\<close>, as the standard library writes it: make the
  parent first when it is missing (a FileExistsError of that call is swallowed, any other
  error leaves), then \<^verbatim>\<open>mkdir(p)\<close>, whose OSError is swallowed when \<open>p\<close> is a directory.
\<close>

function makedirs :: "env \<Rightarrow> path \<Rightarrow> world \<Rightarrow> error option \<times> world" where
  "makedirs E p w =
     (let r = (if p \<noteq> [] \<and> butlast p \<noteq> [] \<and> \<not> exists_path w (butlast p)
               then makedirs E (butlast p) w else (None, w));
          w1 = snd r
      in if fst r \<noteq> None \<and> fst r \<noteq> Some FileExistsError then (fst r, w1)
         else (case mkdir E p w1 of
                 (None, w2) \<Rightarrow> (None, w2)
               | (Some e, w2) \<Rightarrow> if is_dir w2 p then (None, w2) else (Some e, w2)))"
  by pat_completeness auto
termination
  by (relation "measure (\<lambda>(E, p, w). length p)") auto

declare makedirs.simps [simp del]

text \<open>
  \<^verbatim>\<open>with open(ruta, 'wb') as archivo: archivo.write(contenido)\<close>: opening fails on a
  directory, below a missing parent or when the disk refuses; a write that fails leaves
  the file with the bytes that got through.
\<close>

definition escribir :: "env \<Rightarrow> path \<Rightarrow> bytes \<Rightarrow> world \<Rightarrow> error option \<times> world" where
  "escribir E ruta contenido w =
     (if is_dir w ruta then (Some IsADirectoryError, w)
      else if \<not> exists_path w (butlast ruta) then (Some FileNotFoundError, w)
      else if \<not> is_dir w (butlast ruta) then (Some NotADirectoryError, w)
      else (case fault E ruta of
              OpenFails \<Rightarrow> (Some PermissionError, w)
            | WriteFails k \<Rightarrow> (Some OSError, w\<lparr>nodes := (nodes w)(ruta \<mapsto> File (take k contenido))\<rparr>)
            | NoFault \<Rightarrow> (None, w\<lparr>nodes := (nodes w)(ruta \<mapsto> File contenido)\<rparr>)))"

subsection \<open>The class\<close>

record downloader =
  api_key :: string
  directorio_imagenes :: path

text \<open>\<^verbatim>\<open>__init__\<close> (lines 30 to 43): two assignments and \<^verbatim>\<open>os.makedirs\<close>.\<close>

definition init :: "env \<Rightarrow> string \<Rightarrow> path \<Rightarrow> world \<Rightarrow> (error + downloader) \<times> world" where
  "init E key dir w =
     (case makedirs E dir w of
        (Some e, w') \<Rightarrow> (Inl e, w')
      | (None, w') \<Rightarrow> (Inr \<lparr>api_key = key, directorio_imagenes = dir\<rparr>, w'))"

subsection \<open>The resolver\<close>

definition URL_BASE :: string where
  "URL_BASE = ''https://pixabay.com/api/''"

text \<open>The comprehension of line 76, element by element; the first exception leaves.\<close>

fun large_urls :: "json list \<Rightarrow> error + json list" where
  "large_urls [] = Inr []"
| "large_urls (imagen # rest) =
     (case getitem imagen ''largeImageURL'' of
        Inl e \<Rightarrow> Inl e
      | Inr u \<Rightarrow> (case large_urls rest of Inl e \<Rightarrow> Inl e | Inr us \<Rightarrow> Inr (u # us)))"

definition urls_of :: "json \<Rightarrow> error + json list" where
  "urls_of datos =
     (case getitem datos ''hits'' of
        Inl e \<Rightarrow> Inl e
      | Inr hits \<Rightarrow> (case iterate hits of Inl e \<Rightarrow> Inl e | Inr imagenes \<Rightarrow> large_urls imagenes))"

text \<open>The dictionary \<^verbatim>\<open>parametros\<close> of lines 62 to 67.\<close>

definition parametros :: "downloader \<Rightarrow> string \<Rightarrow> int \<Rightarrow> params" where
  "parametros self consulta cantidad =
     \<lparr>param_key = api_key self, param_q = consulta,
      param_image_type = ''photo'', param_per_page = cantidad\<rparr>"

text \<open>
  \<^verbatim>\<open>obtener_urls_imagenes\<close> (lines 61 to 80). Nothing in it catches an exception: one
  raised by the request, by \<^verbatim>\<open>json()\<close> or by a subscript leaves the function.
\<close>

definition obtener_urls_imagenes ::
    "env \<Rightarrow> downloader \<Rightarrow> string \<Rightarrow> int \<Rightarrow> world \<Rightarrow> (error + json list) \<times> world" where
  "obtener_urls_imagenes E self consulta cantidad w =
     (let w1 = send [OpenSession, ApiGet URL_BASE (parametros self consulta cantidad)] w
      in case api E URL_BASE (parametros self consulta cantidad) of
           ApiUnreachable \<Rightarrow> (Inl ClientError, w1)
         | ApiResponse status body \<Rightarrow>
             if status = 200 then
               (case body of
                  BodyLost \<Rightarrow> (Inl ClientError, w1)
                | BodyMalformed \<Rightarrow> (Inl JSONDecodeError, w1)
                | BodyJson datos \<Rightarrow>
                    (case urls_of datos of Inl e \<Rightarrow> (Inl e, w1) | Inr urls \<Rightarrow> (Inr urls, w1)))
             else (Inr [], print (''Error en la solicitud a la API: '' @ py_str status) w1))"

subsection \<open>One download task\<close>

text \<open>
  A task is the coroutine \<^verbatim>\<open>descargar_imagen(session, url, nombre_archivo)\<close> with the
  point it is suspended at: waiting for the response of \<^verbatim>\<open>session.get\<close>, waiting for
  the body of a 200 response, returned, or left by an exception.
\<close>

datatype estado = AwaitResponse | AwaitBody | Returned | Raised error

record tarea =
  url :: json
  nombre_archivo :: string
  estado :: estado

text \<open>\<^verbatim>\<open>os.path.join(self.directorio_imagenes, nombre_archivo)\<close> (line 98).\<close>

definition ruta_de :: "downloader \<Rightarrow> string \<Rightarrow> path" where
  "ruta_de self nombre = directorio_imagenes self @ [nombre]"

text \<open>
  \<^verbatim>\<open>descargar_imagen\<close> (lines 95 to 103), resumed once. From \<open>AwaitResponse\<close>: the
  request fails and its exception leaves the coroutine, or the response arrives and the
  status is tested; a status other than 200 prints the error line and returns. From
  \<open>AwaitBody\<close>: the body arrives (or not), is written to the joined path, and the
  completion line is printed. There is no \<^verbatim>\<open>try\<close> in the coroutine. A task that
  is over is not resumed again.
\<close>

definition descargar_imagen :: "env \<Rightarrow> downloader \<Rightarrow> tarea \<Rightarrow> world \<Rightarrow> tarea \<times> world" where
  "descargar_imagen E self t w =
     (case estado t of
        AwaitResponse \<Rightarrow>
          (case img E (url t) of
             ImgUnreachable \<Rightarrow> (t\<lparr>estado := Raised ClientError\<rparr>, w)
           | ImgResponse status cuerpo \<Rightarrow>
               if status = 200 then (t\<lparr>estado := AwaitBody\<rparr>, w)
               else (t\<lparr>estado := Returned\<rparr>,
                     print (''Error descargando '' @ nombre_archivo t @ '': '' @ py_str status) w))
      | AwaitBody \<Rightarrow>
          (case img E (url t) of
             ImgResponse status (Some contenido) \<Rightarrow>
               (case escribir E (ruta_de self (nombre_archivo t)) contenido w of
                  (Some e, w') \<Rightarrow> (t\<lparr>estado := Raised e\<rparr>, w')
                | (None, w') \<Rightarrow>
                    (t\<lparr>estado := Returned\<rparr>,
                     print (''Descarga completada: '' @ nombre_archivo t) w'))
           | ImgResponse status None \<Rightarrow> (t\<lparr>estado := Raised ClientError\<rparr>, w)
           | ImgUnreachable \<Rightarrow> (t\<lparr>estado := Raised ClientError\<rparr>, w))
      | Returned \<Rightarrow> (t, w)
      | Raised e \<Rightarrow> (t, w))"

subsection \<open>The batch\<close>

text \<open>\<^verbatim>\<open>f"imagen_{i+1}.jpg"\<close> for the position \<open>i\<close> that \<^verbatim>\<open>enumerate\<close> gives.\<close>

definition nombre_de :: "nat \<Rightarrow> string" where
  "nombre_de i = ''imagen_'' @ py_str (i + 1) @ ''.jpg''"

definition crear_tareas :: "json list \<Rightarrow> tarea list" where
  "crear_tareas urls =
     map (\<lambda>(i, u). \<lparr>url = u, nombre_archivo = nombre_de i, estado = AwaitResponse\<rparr>)
       (enumerate 0 urls)"

definition todas_terminadas :: "tarea list \<Rightarrow> bool" where
  "todas_terminadas ts \<longleftrightarrow> list_all (\<lambda>t. estado t = Returned) ts"

text \<open>
  \<^verbatim>\<open>await asyncio.gather(*tareas)\<close> without \<^verbatim>\<open>return_exceptions\<close>: it returns when every
  task has returned, and the first exception of a task is raised in the caller at once.
  The result is the state at that moment: the other tasks are where they were (nothing
  awaits them any more; \<^verbatim>\<open>asyncio.run\<close> cancels them when the exception ends \<^verbatim>\<open>main\<close>).
  The schedule names the task that is resumed next, a position without a task counting
  for nothing; when the schedule ends before the tasks have, the caller is still waiting
  (\<open>None\<close>).
\<close>

fun gather ::
    "env \<Rightarrow> downloader \<Rightarrow> nat list \<Rightarrow> tarea list \<Rightarrow> world \<Rightarrow> (error + unit) option \<times> tarea list \<times> world" where
  "gather E self [] ts w = (if todas_terminadas ts then (Some (Inr ()), ts, w) else (None, ts, w))"
| "gather E self (i # sched) ts w =
     (if todas_terminadas ts then (Some (Inr ()), ts, w)
      else if length ts \<le> i then gather E self sched ts w
      else (case descargar_imagen E self (ts ! i) w of
              (t', w') \<Rightarrow>
                (case estado t' of
                   Raised e \<Rightarrow> (Some (Inl e), ts[i := t'], w')
                 | _ \<Rightarrow> gather E self sched (ts[i := t']) w')))"

text \<open>
  Lines 123 to 126: the session for the downloads, one task per reference in the order of
  \<^verbatim>\<open>enumerate\<close> (each sends its GET when it starts), and the wait for them.
\<close>

definition lanzar ::
    "env \<Rightarrow> downloader \<Rightarrow> nat list \<Rightarrow> json list \<Rightarrow> world \<Rightarrow> (error + unit) option \<times> tarea list \<times> world" where
  "lanzar E self sched urls w =
     gather E self sched (crear_tareas urls) (send (OpenSession # map ImgGet urls) w)"

text \<open>The two messages of the orchestrator; \<open>CHR 0xE1\<close> is the letter a with an acute accent.\<close>

definition SIN_IMAGENES :: string where
  "SIN_IMAGENES = ''No se encontraron im'' @ [CHR 0xE1] @ ''genes para descargar.''"

definition TODAS_DESCARGADAS :: string where
  "TODAS_DESCARGADAS = ''Todas las im'' @ [CHR 0xE1] @ ''genes han sido descargadas.''"

text \<open>
  \<^verbatim>\<open>descargar_imagenes_concurrentes\<close> (lines 116 to 128). An exception of the resolver
  or of \<^verbatim>\<open>gather\<close> leaves the function; the closing line is printed after a \<^verbatim>\<open>gather\<close>
  that returned.
\<close>

definition descargar_imagenes_concurrentes ::
    "env \<Rightarrow> downloader \<Rightarrow> string \<Rightarrow> int \<Rightarrow> nat list \<Rightarrow> world \<Rightarrow> (error + unit) option \<times> world" where
  "descargar_imagenes_concurrentes E self consulta cantidad sched w =
     (case obtener_urls_imagenes E self consulta cantidad w of
        (Inl e, w1) \<Rightarrow> (Some (Inl e), w1)
      | (Inr urls, w1) \<Rightarrow>
          if urls = [] then (Some (Inr ()), print SIN_IMAGENES w1)
          else (case lanzar E self sched urls w1 of
                  (Some (Inr u), ts, w2) \<Rightarrow> (Some (Inr ()), print TODAS_DESCARGADAS w2)
                | (Some (Inl e), ts, w2) \<Rightarrow> (Some (Inl e), w2)
                | (None, ts, w2) \<Rightarrow> (None, w2)))"

section \<open>Notions used to state the properties\<close>

text \<open>
  A file tree is well formed when everything in it lies in a directory of the tree.
\<close>

definition wf_fs :: "world \<Rightarrow> bool" where
  "wf_fs w \<longleftrightarrow> (\<forall>p. nodes w p \<noteq> None \<longrightarrow> is_dir w (butlast p))"

text \<open>A task is pending while it is suspended at one of its two waits.\<close>

definition pendiente :: "tarea \<Rightarrow> bool" where
  "pendiente t \<longleftrightarrow> estado t = AwaitResponse \<or> estado t = AwaitBody"

text \<open>The two lines a task can print (lines 101 and 103).\<close>

definition COMPLETADA :: "string \<Rightarrow> string" where
  "COMPLETADA nombre = ''Descarga completada: '' @ nombre"

definition FALLIDA :: "string \<Rightarrow> nat \<Rightarrow> string" where
  "FALLIDA nombre status = ''Error descargando '' @ nombre @ '': '' @ py_str status"

text \<open>
  The line a pending task prints when it returns: past the status test it is the
  completion line; before it, the status of the reply decides.
\<close>

definition informe :: "env \<Rightarrow> tarea \<Rightarrow> string" where
  "informe E t =
     (case estado t of
        AwaitBody \<Rightarrow> COMPLETADA (nombre_archivo t)
      | _ \<Rightarrow> (case img E (url t) of
                ImgUnreachable \<Rightarrow> []
              | ImgResponse status cuerpo \<Rightarrow>
                  if status = 200 then COMPLETADA (nombre_archivo t)
                  else FALLIDA (nombre_archivo t) status))"

text \<open>A task that may still reach the write: it is past the status test, or will pass it.\<close>

definition escribe :: "env \<Rightarrow> tarea \<Rightarrow> bool" where
  "escribe E t \<longleftrightarrow>
     estado t = AwaitBody
     \<or> estado t = AwaitResponse
       \<and> (case img E (url t) of ImgUnreachable \<Rightarrow> False | ImgResponse status cuerpo \<Rightarrow> status = 200)"

definition pendientes :: "env \<Rightarrow> tarea list \<Rightarrow> string multiset" where
  "pendientes E ts = image_mset (informe E) (filter_mset pendiente (mset ts))"

text \<open>How many more times a task has to be resumed before it is over.\<close>

definition faltan :: "tarea \<Rightarrow> nat" where
  "faltan t = (case estado t of AwaitResponse \<Rightarrow> 2 | AwaitBody \<Rightarrow> 1 | Returned \<Rightarrow> 0 | Raised e \<Rightarrow> 0)"

text \<open>
  A task that nothing can make raise: its request is answered, and when the answer is
  (or was) a 200 its body can be read and the disk takes the file.
\<close>

definition sin_fallo :: "env \<Rightarrow> downloader \<Rightarrow> tarea \<Rightarrow> bool" where
  "sin_fallo E self t =
     (case estado t of
        Raised e \<Rightarrow> False
      | Returned \<Rightarrow> True
      | AwaitBody \<Rightarrow>
          (case img E (url t) of
             ImgUnreachable \<Rightarrow> False
           | ImgResponse status cuerpo \<Rightarrow>
               cuerpo \<noteq> None \<and> fault E (ruta_de self (nombre_archivo t)) = NoFault)
      | AwaitResponse \<Rightarrow>
          (case img E (url t) of
             ImgUnreachable \<Rightarrow> False
           | ImgResponse status cuerpo \<Rightarrow>
               status \<noteq> 200 \<or> cuerpo \<noteq> None \<and> fault E (ruta_de self (nombre_archivo t)) = NoFault))"

text \<open>A task whose request is answered with a status other than 200, before or after it.\<close>

definition falla_aislada :: "env \<Rightarrow> tarea \<Rightarrow> bool" where
  "falla_aislada E t \<longleftrightarrow>
     (estado t = AwaitResponse \<or> estado t = Returned)
     \<and> (case img E (url t) of ImgUnreachable \<Rightarrow> False | ImgResponse status cuerpo \<Rightarrow> status \<noteq> 200)"

text \<open>A task whose request gets no answer, before or after the failure.\<close>

definition sin_respuesta :: "env \<Rightarrow> tarea \<Rightarrow> bool" where
  "sin_respuesta E t \<longleftrightarrow>
     (estado t = AwaitResponse \<or> estado t = Raised ClientError) \<and> img E (url t) = ImgUnreachable"

section \<open>Example runs\<close>

text \<open>
  A downloader on the default directory; a world in which that directory exists, one in
  which it also holds a file of an earlier run, and an empty one.
\<close>

definition yo :: downloader where
  "yo = \<lparr>api_key = ''clave'', directorio_imagenes = [''imagenes_descargadas'']\<rparr>"

definition mundo :: world where
  "mundo = \<lparr>nodes = [[''imagenes_descargadas''] \<mapsto> Dir], stdout = [], traffic = []\<rparr>"

definition mundo_previo :: world where
  "mundo_previo = \<lparr>nodes = [[''imagenes_descargadas''] \<mapsto> Dir,
                            [''imagenes_descargadas'', ''imagen_1.jpg''] \<mapsto> File ''viejo''],
                   stdout = [], traffic = []\<rparr>"

definition vacio :: world where
  "vacio = \<lparr>nodes = Map.empty, stdout = [], traffic = []\<rparr>"

definition dos_urls :: "json list" where
  "dos_urls = [JStr ''https://cdn/a.jpg'', JStr ''https://cdn/b.jpg'']"

definition dos_hits :: json where
  "dos_hits = JObj [(''total'', JNum 2),
                    (''hits'', JArr [JObj [(''largeImageURL'', JStr ''https://cdn/a.jpg'')],
                                     JObj [(''id'', JNum 7), (''largeImageURL'', JStr ''https://cdn/b.jpg'')]])]"

text \<open>
  The search answers with two hits and both images download; then variations of it:
  the first image unreachable, the second image missing (404), the first file refused by
  the disk, the search refused (403), unreachable or empty, and no directory allowed.
\<close>

definition E_dos :: env where
  "E_dos = \<lparr>api = (\<lambda>u p. ApiResponse 200 (BodyJson dos_hits)),
            img = (\<lambda>u. ImgResponse 200 (Some ''JPEG'')),
            fault = (\<lambda>p. NoFault),
            may_mkdir = (\<lambda>p. True)\<rparr>"

definition E_roto :: env where
  "E_roto = E_dos\<lparr>img := (\<lambda>u. if u = JStr ''https://cdn/a.jpg'' then ImgUnreachable
                              else ImgResponse 200 (Some ''JPEG''))\<rparr>"

definition E_404 :: env where
  "E_404 = E_dos\<lparr>img := (\<lambda>u. if u = JStr ''https://cdn/b.jpg'' then ImgResponse 404 (Some ''no'')
                             else ImgResponse 200 (Some ''JPEG''))\<rparr>"

definition E_disco :: env where
  "E_disco = E_dos\<lparr>fault := (\<lambda>p. if p = [''imagenes_descargadas'', ''imagen_1.jpg''] then OpenFails
                                else NoFault)\<rparr>"

definition E_403 :: env where
  "E_403 = E_dos\<lparr>api := (\<lambda>u p. ApiResponse 403 BodyMalformed)\<rparr>"

definition E_caido :: env where
  "E_caido = E_dos\<lparr>api := (\<lambda>u p. ApiUnreachable)\<rparr>"

definition E_nada :: env where
  "E_nada = E_dos\<lparr>api := (\<lambda>u p. ApiResponse 200 (BodyJson (JObj [(''total'', JNum 0), (''hits'', JArr [])])))\<rparr>"

definition E_sin_permiso :: env where
  "E_sin_permiso = E_dos\<lparr>may_mkdir := (\<lambda>p. False)\<rparr>"

text \<open>The first task of the batch, suspended at the read of its body.\<close>

definition tarea_1 :: tarea where
  "tarea_1 = \<lparr>url = JStr ''https://cdn/a.jpg'', nombre_archivo = ''imagen_1.jpg'', estado = AwaitBody\<rparr>"

section \<open>Lemmas\<close>

subsection \<open>The resolver\<close>

lemma large_urls_all:
  "\<forall>h \<in> set hits. \<exists>u. getitem h ''largeImageURL'' = Inr u \<Longrightarrow>
   \<exists>urls. large_urls hits = Inr urls \<and> map (\<lambda>h. getitem h ''largeImageURL'') hits = map Inr urls"
proof (induction hits)
  case Nil
  show ?case by simp
next
  case (Cons h hits)
  from Cons.prems obtain u where u: "getitem h ''largeImageURL'' = Inr u" by auto
  from Cons obtain us where "large_urls hits = Inr us"
    "map (\<lambda>h. getitem h ''largeImageURL'') hits = map Inr us" by auto
  with u show ?case by simp
qed

subsection \<open>Creating directories\<close>

lemma mkdir_result:
  "mkdir E p w = (r, w') \<Longrightarrow>
     (r = None \<and> p \<noteq> [] \<and> nodes w p = None \<and> is_dir w (butlast p)
        \<and> w' = w\<lparr>nodes := (nodes w)(p \<mapsto> Dir)\<rparr>)
   \<or> (r \<noteq> None \<and> w' = w)"
  by (auto simp: mkdir_def exists_path_def split: if_splits)

lemma butlast_neq: "p \<noteq> [] \<Longrightarrow> butlast p \<noteq> p"
  by (metis length_butlast diff_less length_greater_0_conv less_numeral_extra(1) nat_neq_iff)

lemma wf_fs_add_dir:
  assumes "wf_fs w" "is_dir w (butlast p)" "p \<noteq> []"
  shows "wf_fs (w\<lparr>nodes := (nodes w)(p \<mapsto> Dir)\<rparr>)"
  using assms butlast_neq [of p]
  by (auto simp: wf_fs_def is_dir_def)

lemma mkdir_wf: "mkdir E p w = (r, w') \<Longrightarrow> wf_fs w \<Longrightarrow> wf_fs w'"
  by (drule mkdir_result) (auto intro: wf_fs_add_dir)

lemma mkdir_frame:
  "mkdir E p w = (r, w') \<Longrightarrow>
   traffic w' = traffic w \<and> stdout w' = stdout w
   \<and> (\<forall>q. nodes w' q = nodes w q \<or> (nodes w q = None \<and> nodes w' q = Some Dir \<and> q = p))"
  by (drule mkdir_result) (auto split: if_splits)

lemma makedirs_frame:
  "makedirs E p w = (r, w') \<Longrightarrow>
   traffic w' = traffic w \<and> stdout w' = stdout w
   \<and> (\<forall>q. nodes w' q = nodes w q
          \<or> (nodes w q = None \<and> nodes w' q = Some Dir \<and> (\<exists>n\<le>length p. q = take n p)))"
proof (induction E p w arbitrary: r w' rule: makedirs.induct)
  case (1 E p w)
  define c where "c \<longleftrightarrow> p \<noteq> [] \<and> butlast p \<noteq> [] \<and> \<not> exists_path w (butlast p)"
  define rr where "rr = (if c then makedirs E (butlast p) w else (None, w))"
  have fr: "traffic (snd rr) = traffic w \<and> stdout (snd rr) = stdout w
   \<and> (\<forall>q. nodes (snd rr) q = nodes w q
          \<or> (nodes w q = None \<and> nodes (snd rr) q = Some Dir \<and> (\<exists>n\<le>length (butlast p). q = take n (butlast p))))"
  proof (cases c)
    case True
    then have "rr = makedirs E (butlast p) w" by (simp add: rr_def)
    moreover from True have "p \<noteq> [] \<and> butlast p \<noteq> [] \<and> \<not> exists_path w (butlast p)"
      by (simp add: c_def)
    ultimately show ?thesis using "1.IH" [of "fst rr" "snd rr"] by simp
  next
    case False
    then show ?thesis by (simp add: rr_def)
  qed
  have pre: "\<And>q. (\<exists>n\<le>length (butlast p). q = take n (butlast p)) \<Longrightarrow> (\<exists>n\<le>length p. q = take n p)"
    by (metis butlast_conv_take diff_le_self le_trans length_butlast min.absorb1 take_take)
  have unf: "makedirs E p w =
      (if fst rr \<noteq> None \<and> fst rr \<noteq> Some FileExistsError then (fst rr, snd rr)
         else (case mkdir E p (snd rr) of
                 (None, w2) \<Rightarrow> (None, w2)
               | (Some e, w2) \<Rightarrow> if is_dir w2 p then (None, w2) else (Some e, w2)))"
    by (subst makedirs.simps) (simp add: rr_def c_def Let_def)
  show ?case
  proof (cases "fst rr \<noteq> None \<and> fst rr \<noteq> Some FileExistsError")
    case True
    with unf "1.prems" have "w' = snd rr" by auto
    with fr pre show ?thesis by metis
  next
    case False
    obtain r2 w2 where m: "mkdir E p (snd rr) = (r2, w2)" by (cases "mkdir E p (snd rr)")
    with unf "1.prems" False have "w' = w2" by (auto split: option.splits if_splits)
    moreover from mkdir_frame [OF m] have
      "traffic w2 = traffic (snd rr) \<and> stdout w2 = stdout (snd rr)
        \<and> (\<forall>q. nodes w2 q = nodes (snd rr) q \<or> (nodes (snd rr) q = None \<and> nodes w2 q = Some Dir \<and> q = p))" .
    moreover have "\<exists>n\<le>length p. p = take n p" by auto
    ultimately show ?thesis using fr pre by (smt (verit))
  qed
qed

lemma makedirs_unfold:
  "makedirs E p w =
     (let rr = (if p \<noteq> [] \<and> butlast p \<noteq> [] \<and> \<not> exists_path w (butlast p)
                then makedirs E (butlast p) w else (None, w))
      in if fst rr \<noteq> None \<and> fst rr \<noteq> Some FileExistsError then (fst rr, snd rr)
         else (case mkdir E p (snd rr) of
                 (None, w2) \<Rightarrow> (None, w2)
               | (Some e, w2) \<Rightarrow> if is_dir w2 p then (None, w2) else (Some e, w2)))"
  by (subst makedirs.simps) (simp add: Let_def)

lemma makedirs_wf:
  "makedirs E p w = (r, w') \<Longrightarrow> wf_fs w \<Longrightarrow> wf_fs w'"
proof (induction E p w arbitrary: r w' rule: makedirs.induct)
  case (1 E p w)
  define rr where "rr = (if p \<noteq> [] \<and> butlast p \<noteq> [] \<and> \<not> exists_path w (butlast p)
                then makedirs E (butlast p) w else (None, w))"
  have wf1: "wf_fs (snd rr)"
    using "1.IH" [of "fst rr" "snd rr"] "1.prems"(2) by (auto simp: rr_def)
  obtain r2 w2 where m: "mkdir E p (snd rr) = (r2, w2)" by (cases "mkdir E p (snd rr)")
  from mkdir_wf [OF m wf1] have "wf_fs w2" .
  moreover have "w' = snd rr \<or> w' = w2"
    using "1.prems"(1) m unfolding makedirs_unfold [of E p w] rr_def [symmetric] Let_def
    by (auto split: if_splits option.splits)
  ultimately show ?case using wf1 by auto
qed

lemma makedirs_is_dir:
  "makedirs E p w = (None, w') \<Longrightarrow> is_dir w' p"
proof -
  assume a: "makedirs E p w = (None, w')"
  define rr where "rr = (if p \<noteq> [] \<and> butlast p \<noteq> [] \<and> \<not> exists_path w (butlast p)
                then makedirs E (butlast p) w else (None, w))"
  obtain r2 w2 where m: "mkdir E p (snd rr) = (r2, w2)" by (cases "mkdir E p (snd rr)")
  from a m have "w' = w2 \<and> (r2 = None \<or> is_dir w2 p)"
    unfolding makedirs_unfold [of E p w] rr_def [symmetric] Let_def
    by (auto split: if_splits option.splits)
  moreover from mkdir_result [OF m] have "r2 = None \<longrightarrow> is_dir w2 p"
    by (auto simp: is_dir_def)
  ultimately show ?thesis by auto
qed

lemma wf_fs_prefix_dirs:
  "wf_fs w \<Longrightarrow> is_dir w p \<Longrightarrow> n \<le> length p \<Longrightarrow> is_dir w (take n p)"
proof (induction "length p - n" arbitrary: n)
  case 0
  then show ?case by simp
next
  case (Suc k)
  then have "Suc n \<le> length p" "k = length p - Suc n" by auto
  with Suc have d: "is_dir w (take (Suc n) p)" by blast
  have "take (Suc n) p \<noteq> []" using \<open>Suc n \<le> length p\<close> by auto
  with d have "nodes w (take (Suc n) p) \<noteq> None" by (auto simp: is_dir_def)
  with \<open>wf_fs w\<close> have "is_dir w (butlast (take (Suc n) p))" by (auto simp: wf_fs_def)
  moreover have "butlast (take (Suc n) p) = take n p"
    using \<open>Suc n \<le> length p\<close> by (simp add: butlast_take)
  ultimately show ?case by simp
qed

lemma makedirs_existing:
  assumes "wf_fs w" "is_dir w p"
  shows "makedirs E p w = (None, w)"
proof (cases "p = []")
  case True
  then show ?thesis
    by (subst makedirs.simps) (simp add: mkdir_def is_dir_def)
next
  case False
  with assms have n: "nodes w p = Some Dir" by (simp add: is_dir_def)
  with assms(1) have d: "is_dir w (butlast p)" by (auto simp: wf_fs_def)
  then have e: "exists_path w (butlast p)" by (auto simp: is_dir_def exists_path_def)
  have "mkdir E p w = (Some FileExistsError, w)"
    using False d e n by (simp add: mkdir_def exists_path_def)
  then show ?thesis using e assms(2)
    by (subst makedirs.simps) simp
qed

lemma makedirs_succeeds:
  "wf_fs w \<Longrightarrow>
   \<forall>n. 0 < n \<and> n \<le> length p \<longrightarrow>
       (nodes w (take n p) = None \<or> nodes w (take n p) = Some Dir) \<and> may_mkdir E (take n p) \<Longrightarrow>
   \<exists>w'. makedirs E p w = (None, w')"
proof (induction E p w rule: makedirs.induct)
  case (1 E p w)
  show ?case
  proof (cases "p = []")
    case True
    then show ?thesis by (subst makedirs.simps) (simp add: mkdir_def is_dir_def)
  next
    case False
    define c where "c \<longleftrightarrow> butlast p \<noteq> [] \<and> \<not> exists_path w (butlast p)"
    define rr where "rr = (if p \<noteq> [] \<and> butlast p \<noteq> [] \<and> \<not> exists_path w (butlast p)
                then makedirs E (butlast p) w else (None, w))"
    have bl: "butlast p = take (length p - 1) p" by (simp add: butlast_conv_take)
    have pre: "\<forall>n. 0 < n \<and> n \<le> length (butlast p) \<longrightarrow>
       (nodes w (take n (butlast p)) = None \<or> nodes w (take n (butlast p)) = Some Dir)
         \<and> may_mkdir E (take n (butlast p))"
    proof (intro allI impI)
      fix n assume n: "0 < n \<and> n \<le> length (butlast p)"
      then have "0 < n" "n \<le> length p - 1" by simp_all
      then have "n < length p" by linarith
      then have "take n (butlast p) = take n p" by (rule take_butlast)
      moreover from \<open>0 < n\<close> \<open>n < length p\<close> have "0 < n \<and> n \<le> length p" by simp
      ultimately show "(nodes w (take n (butlast p)) = None \<or> nodes w (take n (butlast p)) = Some Dir)
         \<and> may_mkdir E (take n (butlast p))" using "1.prems"(2) by simp
    qed
    have r1: "fst rr = None \<and> is_dir (snd rr) (butlast p)"
    proof (cases c)
      case True
      with False have rr: "rr = makedirs E (butlast p) w" by (simp add: rr_def c_def)
      from True False "1.IH" [OF _ "1.prems"(1) pre] obtain w1 where
        "makedirs E (butlast p) w = (None, w1)" by (auto simp: c_def)
      with rr makedirs_is_dir [of E "butlast p" w w1] show ?thesis by simp
    next
      case False
      then have "rr = (None, w)" by (auto simp: rr_def c_def)
      moreover have "is_dir w (butlast p)"
      proof (cases "butlast p = []")
        case True
        then show ?thesis by (simp add: is_dir_def)
      next
        case nb: False
        with False have "nodes w (butlast p) \<noteq> None" by (simp add: c_def exists_path_def)
        moreover have "0 < length p - 1 \<and> length p - 1 \<le> length p" using nb by (cases p) auto
        moreover from this "1.prems"(2)
        have "nodes w (take (length p - 1) p) = None \<or> nodes w (take (length p - 1) p) = Some Dir"
          by blast
        ultimately show ?thesis using bl by (auto simp: is_dir_def)
      qed
      ultimately show ?thesis by simp
    qed
    have fr: "\<forall>q. nodes (snd rr) q = nodes w q \<or> nodes (snd rr) q = Some Dir"
    proof (cases c)
      case True
      with False have "makedirs E (butlast p) w = (fst rr, snd rr)" by (simp add: rr_def c_def)
      from makedirs_frame [OF this] show ?thesis by blast
    next
      case False
      then show ?thesis by (auto simp: rr_def c_def)
    qed
    have "0 < length p \<and> length p \<le> length p" using False by simp
    with "1.prems"(2) have np: "(nodes w p = None \<or> nodes w p = Some Dir) \<and> may_mkdir E p"
      by (metis take_all order_refl)
    with fr have np1: "nodes (snd rr) p = None \<or> nodes (snd rr) p = Some Dir" by metis
    obtain r2 w2 where m: "mkdir E p (snd rr) = (r2, w2)" by (cases "mkdir E p (snd rr)")
    have "r2 = None \<or> is_dir w2 p"
      using m r1 np np1 False
      by (auto simp: mkdir_def is_dir_def exists_path_def split: if_splits)
    then have "\<exists>w'. (case mkdir E p (snd rr) of
                 (None, w2) \<Rightarrow> (None, w2)
               | (Some e, w2) \<Rightarrow> if is_dir w2 p then (None, w2) else (Some e, w2)) = (None, w')"
      using m by (auto split: option.splits)
    then show ?thesis using r1
      unfolding makedirs_unfold [of E p w] rr_def [symmetric] Let_def by simp
  qed
qed

subsection \<open>File names\<close>

lemma digit_char_inj:
  assumes "a < 10" "b < 10" "digit_char a = digit_char b"
  shows "a = b"
proof -
  have d: "distinct ''0123456789''" by simp
  have "a < length ''0123456789''" "b < length ''0123456789''" using assms by simp_all
  with d assms(3) show ?thesis
    unfolding digit_char_def by (simp only: nth_eq_iff_index_eq)
qed

lemma py_str_length: "length (py_str n) = 1 \<longleftrightarrow> n < 10"
proof (cases "10 \<le> n")
  case True
  have "py_str (n div 10) \<noteq> []" by (subst py_str.simps) simp
  with True show ?thesis by (subst py_str.simps) simp
next
  case False
  then show ?thesis by (subst py_str.simps) simp
qed

lemma py_str_inj: "py_str n = py_str m \<Longrightarrow> n = m"
proof (induction n arbitrary: m rule: py_str.induct)
  case (1 n)
  have len: "n < 10 \<longleftrightarrow> m < 10" using py_str_length [of n] py_str_length [of m] "1.prems" by simp
  show ?case
  proof (cases "10 \<le> n")
    case True
    with len have m: "10 \<le> m" by simp
    from True m "1.prems" have
      "py_str (n div 10) @ [digit_char (n mod 10)] = py_str (m div 10) @ [digit_char (m mod 10)]"
      by (simp add: py_str.simps [of n] py_str.simps [of m])
    then have a: "py_str (n div 10) = py_str (m div 10)"
      and b: "digit_char (n mod 10) = digit_char (m mod 10)" by simp_all
    from "1.IH" [OF True a] have "n div 10 = m div 10" .
    moreover from b have "n mod 10 = m mod 10" by (intro digit_char_inj) simp_all
    ultimately show ?thesis by (metis div_mult_mod_eq)
  next
    case False
    with len have m: "m < 10" by simp
    from False m "1.prems" have "digit_char n = digit_char m"
      by (simp add: py_str.simps [of n] py_str.simps [of m])
    with False m show ?thesis by (intro digit_char_inj) simp_all
  qed
qed

lemma nombre_de_inj: "nombre_de i = nombre_de j \<Longrightarrow> i = j"
proof -
  assume "nombre_de i = nombre_de j"
  then have "py_str (i + 1) = py_str (j + 1)" by (simp add: nombre_de_def)
  then have "i + 1 = j + 1" by (rule py_str_inj)
  then show ?thesis by simp
qed

lemma crear_tareas_length: "length (crear_tareas urls) = length urls"
  by (simp add: crear_tareas_def)

lemma crear_tareas_nth:
  "i < length urls \<Longrightarrow>
   crear_tareas urls ! i = \<lparr>url = urls ! i, nombre_archivo = nombre_de i, estado = AwaitResponse\<rparr>"
  by (simp add: crear_tareas_def nth_enumerate_eq)

lemma crear_tareas_distinct: "distinct (map nombre_archivo (crear_tareas urls))"
  by (auto simp: distinct_conv_nth crear_tareas_length crear_tareas_nth dest: nombre_de_inj)

lemma crear_tareas_estado: "t \<in> set (crear_tareas urls) \<Longrightarrow> estado t = AwaitResponse"
  by (auto simp: in_set_conv_nth crear_tareas_length crear_tareas_nth)

subsection \<open>One resumption of a task\<close>

lemma escribir_result:
  "escribir E ruta contenido w = (r, w') \<Longrightarrow>
     stdout w' = stdout w \<and> traffic w' = traffic w
     \<and> (\<forall>q. is_dir w' q = is_dir w q)
     \<and> (\<forall>q. q \<noteq> ruta \<longrightarrow> nodes w' q = nodes w q)
     \<and> (r = None \<longrightarrow> nodes w' ruta = Some (File contenido))"
  by (auto simp: escribir_def is_dir_def split: if_splits disk_fault.splits)

lemma escribir_ok:
  "\<not> is_dir w ruta \<Longrightarrow> is_dir w (butlast ruta) \<Longrightarrow> fault E ruta = NoFault \<Longrightarrow>
   fst (escribir E ruta contenido w) = None"
  by (auto simp: escribir_def is_dir_def exists_path_def)

text \<open>The five ways one resumption of a task can go.\<close>

lemma descargar_imagen_cases:
  assumes "descargar_imagen E self t w = (t', w')"
  shows "(\<not> pendiente t \<and> t' = t \<and> w' = w)
       \<or> (estado t = AwaitResponse \<and> escribe E t \<and> t' = t\<lparr>estado := AwaitBody\<rparr> \<and> w' = w)
       \<or> (estado t = AwaitResponse \<and> \<not> escribe E t \<and> t' = t\<lparr>estado := Returned\<rparr>
            \<and> w' = print (informe E t) w)
       \<or> (estado t = AwaitBody \<and> t' = t\<lparr>estado := Returned\<rparr>
            \<and> (\<exists>status contenido w1. img E (url t) = ImgResponse status (Some contenido)
                 \<and> escribir E (ruta_de self (nombre_archivo t)) contenido w = (None, w1)
                 \<and> w' = print (informe E t) w1))
       \<or> (pendiente t \<and> (\<exists>e. t' = t\<lparr>estado := Raised e\<rparr>) \<and> stdout w' = stdout w
            \<and> traffic w' = traffic w \<and> (\<forall>q. is_dir w' q = is_dir w q)
            \<and> (\<forall>q. nodes w' q \<noteq> nodes w q \<longrightarrow> estado t = AwaitBody \<and> q = ruta_de self (nombre_archivo t)))"
proof (cases "estado t")
  case AwaitResponse
  with assms show ?thesis
    by (auto simp: descargar_imagen_def pendiente_def escribe_def informe_def FALLIDA_def
             split: img_reply.splits if_splits)
next
  case AwaitBody
  show ?thesis
  proof (cases "img E (url t)")
    case ImgUnreachable
    with AwaitBody assms show ?thesis by (auto simp: descargar_imagen_def pendiente_def)
  next
    case (ImgResponse status cuerpo)
    show ?thesis
    proof (cases cuerpo)
      case None
      with ImgResponse AwaitBody assms show ?thesis
        by (auto simp: descargar_imagen_def pendiente_def)
    next
      case (Some contenido)
      obtain r w1 where e: "escribir E (ruta_de self (nombre_archivo t)) contenido w = (r, w1)"
        by (cases "escribir E (ruta_de self (nombre_archivo t)) contenido w")
      from escribir_result [OF e] Some ImgResponse AwaitBody assms e show ?thesis
        by (cases r) (auto simp: descargar_imagen_def pendiente_def informe_def COMPLETADA_def ruta_de_def)
    qed
  qed
next
  case Returned
  with assms show ?thesis by (auto simp: descargar_imagen_def pendiente_def)
next
  case (Raised e)
  with assms show ?thesis by (auto simp: descargar_imagen_def pendiente_def)
qed

subsection \<open>The wait for the tasks\<close>

lemma gather_Cons_cases:
  assumes "gather E self (i # sched) ts w = (r, ts', w')"
  shows "(todas_terminadas ts \<and> r = Some (Inr ()) \<and> ts' = ts \<and> w' = w)
       \<or> (\<not> todas_terminadas ts \<and> length ts \<le> i \<and> gather E self sched ts w = (r, ts', w'))
       \<or> (\<not> todas_terminadas ts \<and> i < length ts
            \<and> (\<exists>t1 w1. descargar_imagen E self (ts ! i) w = (t1, w1)
                 \<and> ((\<exists>e. estado t1 = Raised e \<and> r = Some (Inl e) \<and> ts' = ts[i := t1] \<and> w' = w1)
                    \<or> ((\<forall>e. estado t1 \<noteq> Raised e)
                         \<and> gather E self sched (ts[i := t1]) w1 = (r, ts', w')))))"
proof -
  obtain t1 w1 where s: "descargar_imagen E self (ts ! i) w = (t1, w1)"
    by (cases "descargar_imagen E self (ts ! i) w")
  with assms show ?thesis
    by (cases "estado t1") (auto split: if_splits)
qed

lemma step_frame:
  assumes "descargar_imagen E self t w = (t', w')"
  shows "url t' = url t \<and> nombre_archivo t' = nombre_archivo t \<and> traffic w' = traffic w
       \<and> (\<forall>q. is_dir w' q = is_dir w q)
       \<and> (\<forall>q. nodes w' q \<noteq> nodes w q \<longrightarrow> escribe E t \<and> q = ruta_de self (nombre_archivo t))
       \<and> (escribe E t' \<longrightarrow> escribe E t)"
  using descargar_imagen_cases [OF assms]
proof (elim disjE)
  assume "\<not> pendiente t \<and> t' = t \<and> w' = w"
  then show ?thesis by simp
next
  assume "estado t = AwaitResponse \<and> escribe E t \<and> t' = t\<lparr>estado := AwaitBody\<rparr> \<and> w' = w"
  then show ?thesis by simp
next
  assume "estado t = AwaitResponse \<and> \<not> escribe E t \<and> t' = t\<lparr>estado := Returned\<rparr>
            \<and> w' = print (informe E t) w"
  then show ?thesis by (simp add: print_def is_dir_def escribe_def)
next
  assume a: "estado t = AwaitBody \<and> t' = t\<lparr>estado := Returned\<rparr>
            \<and> (\<exists>status contenido w1. img E (url t) = ImgResponse status (Some contenido)
                 \<and> escribir E (ruta_de self (nombre_archivo t)) contenido w = (None, w1)
                 \<and> w' = print (informe E t) w1)"
  then obtain contenido w1 where
    e: "escribir E (ruta_de self (nombre_archivo t)) contenido w = (None, w1)"
    and w': "w' = print (informe E t) w1" by blast
  from escribir_result [OF e] have
    "traffic w1 = traffic w" "\<forall>q. is_dir w1 q = is_dir w q"
    "\<forall>q. q \<noteq> ruta_de self (nombre_archivo t) \<longrightarrow> nodes w1 q = nodes w q" by simp_all
  moreover have "traffic w' = traffic w1" "nodes w' = nodes w1" "\<forall>q. is_dir w' q = is_dir w1 q"
    using w' by (simp_all add: print_def is_dir_def)
  moreover have "escribe E t" "\<not> escribe E t'" "url t' = url t" "nombre_archivo t' = nombre_archivo t"
    using a by (simp_all add: escribe_def)
  ultimately show ?thesis by metis
next
  assume a: "pendiente t \<and> (\<exists>e. t' = t\<lparr>estado := Raised e\<rparr>) \<and> stdout w' = stdout w
            \<and> traffic w' = traffic w \<and> (\<forall>q. is_dir w' q = is_dir w q)
            \<and> (\<forall>q. nodes w' q \<noteq> nodes w q \<longrightarrow> estado t = AwaitBody \<and> q = ruta_de self (nombre_archivo t))"
  then have "\<not> escribe E t'" "url t' = url t" "nombre_archivo t' = nombre_archivo t"
    by (auto simp: escribe_def)
  moreover have "estado t = AwaitBody \<longrightarrow> escribe E t" by (simp add: escribe_def)
  ultimately show ?thesis using a by blast
qed

lemma set_update_cases:
  "t \<in> set (ts[i := t1]) \<Longrightarrow> t = t1 \<or> t \<in> set ts"
  using set_update_subset_insert [of ts i t1] by auto

lemma gather_frame:
  "gather E self sched ts w = (r, ts', w') \<Longrightarrow>
   length ts' = length ts \<and> map url ts' = map url ts
   \<and> map nombre_archivo ts' = map nombre_archivo ts
   \<and> traffic w' = traffic w
   \<and> (\<forall>q. is_dir w' q = is_dir w q)"
proof (induction sched arbitrary: ts w)
  case Nil
  then show ?case by (auto split: if_splits)
next
  case (Cons i sched)
  from gather_Cons_cases [OF Cons.prems] show ?case
  proof (elim disjE conjE exE)
    assume "ts' = ts" "w' = w"
    then show ?thesis by simp
  next
    assume "gather E self sched ts w = (r, ts', w')"
    then show ?thesis by (rule Cons.IH)
  next
    fix t1 w1 e
    assume i: "i < length ts" and s: "descargar_imagen E self (ts ! i) w = (t1, w1)"
      and "ts' = ts[i := t1]" "w' = w1"
    with step_frame [OF s] show ?thesis
      by (simp add: map_update list_update_same_conv)
  next
    fix t1 w1
    assume i: "i < length ts" and s: "descargar_imagen E self (ts ! i) w = (t1, w1)"
      and g: "gather E self sched (ts[i := t1]) w1 = (r, ts', w')"
    from step_frame [OF s] Cons.IH [OF g] i show ?thesis
      by (simp add: map_update list_update_same_conv)
  qed
qed

lemma gather_writes:
  "gather E self sched ts w = (r, ts', w') \<Longrightarrow> nodes w' q \<noteq> nodes w q \<Longrightarrow>
   \<exists>t \<in> set ts. escribe E t \<and> q = ruta_de self (nombre_archivo t)"
proof (induction sched arbitrary: ts w)
  case Nil
  then show ?case by (auto split: if_splits)
next
  case (Cons i sched)
  from gather_Cons_cases [OF Cons.prems(1)] show ?case
  proof (elim disjE conjE exE)
    assume "ts' = ts" "w' = w"
    with Cons.prems(2) show ?thesis by simp
  next
    assume "gather E self sched ts w = (r, ts', w')"
    from Cons.IH [OF this Cons.prems(2)] show ?thesis .
  next
    fix t1 w1 e
    assume i: "i < length ts" and s: "descargar_imagen E self (ts ! i) w = (t1, w1)"
      and "w' = w1"
    with step_frame [OF s] Cons.prems(2)
    have "escribe E (ts ! i) \<and> q = ruta_de self (nombre_archivo (ts ! i))" by blast
    with i show ?thesis using nth_mem by blast
  next
    fix t1 w1
    assume i: "i < length ts" and s: "descargar_imagen E self (ts ! i) w = (t1, w1)"
      and g: "gather E self sched (ts[i := t1]) w1 = (r, ts', w')"
    note f = step_frame [OF s]
    show ?thesis
    proof (cases "nodes w1 q = nodes w q")
      case False
      with f have "escribe E (ts ! i) \<and> q = ruta_de self (nombre_archivo (ts ! i))" by blast
      with i show ?thesis using nth_mem by blast
    next
      case True
      with Cons.prems(2) have "nodes w' q \<noteq> nodes w1 q" by simp
      from Cons.IH [OF g this] obtain t where
        t: "t \<in> set (ts[i := t1])" "escribe E t" "q = ruta_de self (nombre_archivo t)"
        by blast
      from set_update_cases [OF t(1)] show ?thesis
      proof
        assume "t = t1"
        with t f have "escribe E (ts ! i) \<and> q = ruta_de self (nombre_archivo (ts ! i))" by simp
        with i show ?thesis using nth_mem by blast
      next
        assume "t \<in> set ts"
        with t show ?thesis by blast
      qed
    qed
  qed
qed

lemma gather_returned:
  "gather E self sched ts w = (Some (Inr u), ts', w') \<Longrightarrow> todas_terminadas ts'"
proof (induction sched arbitrary: ts w)
  case Nil
  then show ?case by (auto split: if_splits)
next
  case (Cons i sched)
  from gather_Cons_cases [OF Cons.prems] Cons.IH show ?case by auto
qed

lemma gather_raised:
  "gather E self sched ts w = (r, ts', w') \<Longrightarrow> \<forall>t \<in> set ts. \<forall>e. estado t \<noteq> Raised e \<Longrightarrow>
   (\<forall>k e. k < length ts' \<and> estado (ts' ! k) = Raised e \<longrightarrow> r = Some (Inl e))
   \<and> (\<forall>e. r = Some (Inl e) \<longrightarrow> (\<exists>k < length ts'. estado (ts' ! k) = Raised e))"
proof (induction sched arbitrary: ts w)
  case Nil
  then show ?case by (auto split: if_splits)
next
  case (Cons i sched)
  from gather_Cons_cases [OF Cons.prems(1)] show ?case
  proof (elim disjE conjE exE)
    assume "ts' = ts" "r = Some (Inr ())"
    with Cons.prems(2) show ?thesis by auto
  next
    assume "gather E self sched ts w = (r, ts', w')"
    from Cons.IH [OF this Cons.prems(2)] show ?thesis .
  next
    fix t1 w1 e
    assume i: "i < length ts" and e: "estado t1 = Raised e" "r = Some (Inl e)" "ts' = ts[i := t1]"
    have "estado (ts' ! k) = Raised e' \<Longrightarrow> k < length ts' \<Longrightarrow> e' = e" for k e'
      using Cons.prems(2) e i by (cases "k = i") (auto simp: nth_list_update)
    moreover have "i < length ts' \<and> estado (ts' ! i) = Raised e" using e i by simp
    ultimately show ?thesis using e by blast
  next
    fix t1 w1
    assume i: "i < length ts" and n: "\<forall>e. estado t1 \<noteq> Raised e"
      and g: "gather E self sched (ts[i := t1]) w1 = (r, ts', w')"
    have "\<forall>t \<in> set (ts[i := t1]). \<forall>e. estado t \<noteq> Raised e"
      using Cons.prems(2) n by (blast dest: set_update_cases)
    from Cons.IH [OF g this] show ?thesis .
  qed
qed

lemma map_update_same:
  "i < length ts \<Longrightarrow> f t1 = f (ts ! i) \<Longrightarrow> map f (ts[i := t1]) = map f ts"
  by (simp add: map_update list_update_same_conv)

lemma pendientes_update:
  assumes "i < length ts"
  shows "pendientes E (ts[i := t1]) + (if pendiente (ts ! i) then {#informe E (ts ! i)#} else {#})
       = pendientes E ts + (if pendiente t1 then {#informe E t1#} else {#})"
proof -
  define rest where "rest = mset ts - {#ts ! i#}"
  have a: "mset ts = add_mset (ts ! i) rest"
    using assms by (simp add: rest_def)
  have b: "mset (ts[i := t1]) = add_mset t1 rest"
    using assms by (simp add: rest_def mset_update)
  show ?thesis unfolding pendientes_def a b by simp
qed

lemma gather_stdout:
  "gather E self sched ts w = (Some (Inr ()), ts', w') \<Longrightarrow>
   \<exists>ls. stdout w' = stdout w @ ls \<and> mset ls = pendientes E ts"
proof (induction sched arbitrary: ts w)
  case Nil
  then have "todas_terminadas ts" "w' = w" by (auto split: if_splits)
  then have "pendientes E ts = {#}"
    by (auto simp: pendientes_def todas_terminadas_def pendiente_def list_all_iff)
  with \<open>w' = w\<close> show ?case by simp
next
  case (Cons i sched)
  from gather_Cons_cases [OF Cons.prems] show ?case
  proof (elim disjE conjE exE)
    assume "todas_terminadas ts" "w' = w"
    then have "pendientes E ts = {#}"
      by (auto simp: pendientes_def todas_terminadas_def pendiente_def list_all_iff)
    with \<open>w' = w\<close> show ?thesis by simp
  next
    assume "gather E self sched ts w = (Some (Inr ()), ts', w')"
    then show ?thesis by (rule Cons.IH)
  next
    fix t1 w1 e
    assume "Some (Inr ()) = Some (Inl e)"
    then show ?thesis by simp
  next
    fix t1 w1
    assume i: "i < length ts" and s: "descargar_imagen E self (ts ! i) w = (t1, w1)"
      and g: "gather E self sched (ts[i := t1]) w1 = (Some (Inr ()), ts', w')"
      and n: "\<forall>e. estado t1 \<noteq> Raised e"
    from Cons.IH [OF g] obtain ls where
      ls: "stdout w' = stdout w1 @ ls" "mset ls = pendientes E (ts[i := t1])" by blast
    note u = pendientes_update [OF i, of E t1]
    from descargar_imagen_cases [OF s] show ?thesis
    proof (elim disjE conjE exE)
      assume "\<not> pendiente (ts ! i)" "t1 = ts ! i" "w1 = w"
      with ls show ?thesis by simp
    next
      assume a: "estado (ts ! i) = AwaitResponse" "escribe E (ts ! i)"
        "t1 = (ts ! i)\<lparr>estado := AwaitBody\<rparr>" "w1 = w"
      then have "pendiente (ts ! i)" "pendiente t1" "informe E t1 = informe E (ts ! i)"
        by (auto simp: pendiente_def informe_def escribe_def split: img_reply.splits)
      with u have "pendientes E (ts[i := t1]) = pendientes E ts" by simp
      with ls a show ?thesis by simp
    next
      assume a: "estado (ts ! i) = AwaitResponse" "t1 = (ts ! i)\<lparr>estado := Returned\<rparr>"
        "w1 = print (informe E (ts ! i)) w"
      then have "pendiente (ts ! i)" "\<not> pendiente t1" by (auto simp: pendiente_def)
      with u have "pendientes E ts = add_mset (informe E (ts ! i)) (pendientes E (ts[i := t1]))" by simp
      with ls a show ?thesis by (simp add: print_def)
    next
      fix status contenido w2
      assume a: "estado (ts ! i) = AwaitBody" "t1 = (ts ! i)\<lparr>estado := Returned\<rparr>"
        "escribir E (ruta_de self (nombre_archivo (ts ! i))) contenido w = (None, w2)"
        "w1 = print (informe E (ts ! i)) w2"
      then have "pendiente (ts ! i)" "\<not> pendiente t1" by (auto simp: pendiente_def)
      with u have "pendientes E ts = add_mset (informe E (ts ! i)) (pendientes E (ts[i := t1]))" by simp
      moreover from escribir_result [OF a(3)] have "stdout w2 = stdout w" by simp
      ultimately show ?thesis using ls a by (simp add: print_def)
    next
      fix e
      assume "t1 = (ts ! i)\<lparr>estado := Raised e\<rparr>"
      with n show ?thesis by simp
    qed
  qed
qed

lemma step_settled:
  "descargar_imagen E self t w = (t', w') \<Longrightarrow> \<not> pendiente t \<Longrightarrow> t' = t"
  by (cases "estado t") (auto simp: descargar_imagen_def pendiente_def)

lemma gather_settled:
  "gather E self sched ts w = (r, ts', w') \<Longrightarrow> k < length ts \<Longrightarrow>
   \<not> pendiente (ts ! k) \<Longrightarrow> ts' ! k = ts ! k"
proof (induction sched arbitrary: ts w)
  case Nil
  then show ?case by (auto split: if_splits)
next
  case (Cons i sched)
  from gather_Cons_cases [OF Cons.prems(1)] show ?case
  proof (elim disjE conjE exE)
    assume "ts' = ts"
    then show ?thesis by simp
  next
    assume "gather E self sched ts w = (r, ts', w')"
    from Cons.IH [OF this Cons.prems(2,3)] show ?thesis .
  next
    fix t1 w1 e
    assume "descargar_imagen E self (ts ! i) w = (t1, w1)" "ts' = ts[i := t1]" "i < length ts"
    with Cons.prems(2,3) step_settled [of E self "ts ! i" w t1 w1]
    show ?thesis by (cases "k = i") auto
  next
    fix t1 w1
    assume i: "i < length ts" and s: "descargar_imagen E self (ts ! i) w = (t1, w1)"
      and g: "gather E self sched (ts[i := t1]) w1 = (r, ts', w')"
    have "ts[i := t1] ! k = ts ! k"
      using Cons.prems(2,3) step_settled [OF s] i by (cases "k = i") auto
    moreover have "k < length (ts[i := t1])" using Cons.prems(2) by simp
    ultimately show ?thesis using Cons.IH [OF g] Cons.prems(3) by metis
  qed
qed

lemma gather_file:
  "gather E self sched ts w = (r, ts', w') \<Longrightarrow>
   distinct (map nombre_archivo ts) \<Longrightarrow> k < length ts \<Longrightarrow>
   pendiente (ts ! k) \<Longrightarrow> estado (ts' ! k) = Returned \<Longrightarrow>
   img E (url (ts ! k)) = ImgResponse 200 (Some contenido) \<Longrightarrow>
   nodes w' (ruta_de self (nombre_archivo (ts ! k))) = Some (File contenido)"
proof (induction sched arbitrary: ts w)
  case Nil
  then show ?case by (auto simp: pendiente_def split: if_splits)
next
  case (Cons i sched)
  from gather_Cons_cases [OF Cons.prems(1)] show ?case
  proof (elim disjE conjE exE)
    assume "ts' = ts"
    with Cons.prems show ?thesis by (auto simp: pendiente_def)
  next
    assume "gather E self sched ts w = (r, ts', w')"
    from Cons.IH [OF this Cons.prems(2-6)] show ?thesis .
  next
    fix t1 w1 e
    assume "estado t1 = Raised e" "ts' = ts[i := t1]" "i < length ts"
    with Cons.prems(3-5) show ?thesis
      by (cases "k = i") (auto simp: pendiente_def)
  next
    fix t1 w1
    assume i: "i < length ts" and s: "descargar_imagen E self (ts ! i) w = (t1, w1)"
      and g: "gather E self sched (ts[i := t1]) w1 = (r, ts', w')"
    note f = step_frame [OF s]
    have d: "distinct (map nombre_archivo (ts[i := t1]))"
      using f Cons.prems(2) i by (simp add: map_update_same)
    have k: "k < length (ts[i := t1])" using Cons.prems(3) by simp
    show ?thesis
    proof (cases "pendiente (ts[i := t1] ! k)")
      case True
      have "url (ts[i := t1] ! k) = url (ts ! k)"
        "nombre_archivo (ts[i := t1] ! k) = nombre_archivo (ts ! k)"
        using f i by (cases "k = i"; simp)+
      with Cons.IH [OF g d k True Cons.prems(5)] Cons.prems(6) show ?thesis by simp
    next
      case False
      with Cons.prems(3,4) have ki: "k = i" by (cases "k = i") auto
      with False i have np: "\<not> pendiente t1" by simp
      from descargar_imagen_cases [OF s] Cons.prems(4) np ki Cons.prems(5)
      have "estado t1 = Returned \<or> (\<exists>e. estado t1 = Raised e)"
        by (auto simp: pendiente_def)
      moreover have "estado (ts' ! k) = estado t1"
        using gather_settled [OF g k] np ki i by simp
      ultimately have ret: "estado t1 = Returned" using Cons.prems(5) by auto
      from descargar_imagen_cases [OF s] ret Cons.prems(4,6) ki
      obtain w2 where e: "escribir E (ruta_de self (nombre_archivo (ts ! k))) contenido w = (None, w2)"
        and w1: "w1 = print (informe E (ts ! k)) w2"
        by (auto simp: pendiente_def escribe_def)
      from escribir_result [OF e] w1
      have n1: "nodes w1 (ruta_de self (nombre_archivo (ts ! k))) = Some (File contenido)"
        by (simp add: print_def)
      have "nodes w' (ruta_de self (nombre_archivo (ts ! k))) = nodes w1 (ruta_de self (nombre_archivo (ts ! k)))"
      proof (rule ccontr)
        assume "nodes w' (ruta_de self (nombre_archivo (ts ! k))) \<noteq> nodes w1 (ruta_de self (nombre_archivo (ts ! k)))"
        from gather_writes [OF g this] obtain t where
          t: "t \<in> set (ts[i := t1])" "escribe E t"
             "ruta_de self (nombre_archivo (ts ! k)) = ruta_de self (nombre_archivo t)" by blast
        from t(1) obtain j where j: "j < length ts" "t = ts[i := t1] ! j"
          by (auto simp: in_set_conv_nth)
        have "nombre_archivo t = nombre_archivo (ts[i := t1] ! k)"
          using t(3) f ki i by (simp add: ruta_de_def)
        with j k have "map nombre_archivo (ts[i := t1]) ! j = map nombre_archivo (ts[i := t1]) ! k"
          by simp
        with j k have "j = k"
          using nth_eq_iff_index_eq [OF d, of j k] by simp
        with j ki i have "t = t1" by simp
        with t(2) ret show False by (simp add: escribe_def)
      qed
      with n1 show ?thesis by simp
    qed
  qed
qed

lemma step_faltan:
  assumes "descargar_imagen E self t w = (t', w')"
  shows "(\<exists>e. estado t' = Raised e) \<or> faltan t' \<le> faltan t - 1"
  using descargar_imagen_cases [OF assms]
  by (elim disjE conjE exE) (auto simp: faltan_def pendiente_def split: estado.splits)

lemma todas_terminadas_faltan:
  "\<forall>t \<in> set ts. \<forall>e. estado t \<noteq> Raised e \<Longrightarrow> \<forall>k < length ts. faltan (ts ! k) = 0 \<Longrightarrow>
   todas_terminadas ts"
  unfolding todas_terminadas_def list_all_iff
proof
  fix t assume a: "\<forall>t \<in> set ts. \<forall>e. estado t \<noteq> Raised e" "\<forall>k < length ts. faltan (ts ! k) = 0"
    and t: "t \<in> set ts"
  then have "faltan t = 0" by (auto simp: in_set_conv_nth)
  with a(1) t show "estado t = Returned"
    by (cases "estado t") (auto simp: faltan_def)
qed

text \<open>A schedule that resumes every task as often as it still needs ends the wait.\<close>

lemma gather_ends:
  "\<forall>t \<in> set ts. \<forall>e. estado t \<noteq> Raised e \<Longrightarrow>
   \<forall>k < length ts. faltan (ts ! k) \<le> count_list sched k \<Longrightarrow>
   fst (gather E self sched ts w) \<noteq> None"
proof (induction sched arbitrary: ts w)
  case Nil
  then have "todas_terminadas ts" by (intro todas_terminadas_faltan) auto
  then show ?case by simp
next
  case (Cons i sched)
  show ?case
  proof (cases "todas_terminadas ts")
    case True
    then show ?thesis by simp
  next
    case nt: False
    show ?thesis
    proof (cases "length ts \<le> i")
      case True
      with Cons.prems(2) have "\<forall>k < length ts. faltan (ts ! k) \<le> count_list sched k" by auto
      from Cons.IH [OF Cons.prems(1) this] nt True show ?thesis by simp
    next
      case False
      obtain t1 w1 where s: "descargar_imagen E self (ts ! i) w = (t1, w1)"
        by (cases "descargar_imagen E self (ts ! i) w")
      show ?thesis
      proof (cases "\<exists>e. estado t1 = Raised e")
        case True
        with nt False s show ?thesis by auto
      next
        case nr: False
        with step_faltan [OF s] have f: "faltan t1 \<le> faltan (ts ! i) - 1" by blast
        have a: "\<forall>t \<in> set (ts[i := t1]). \<forall>e. estado t \<noteq> Raised e"
          using Cons.prems(1) nr by (blast dest: set_update_cases)
        have b: "\<forall>k < length (ts[i := t1]). faltan (ts[i := t1] ! k) \<le> count_list sched k"
        proof (intro allI impI)
          fix k assume k: "k < length (ts[i := t1])"
          with Cons.prems(2) have c: "faltan (ts ! k) \<le> count_list (i # sched) k" by simp
          show "faltan (ts[i := t1] ! k) \<le> count_list sched k"
          proof (cases "k = i")
            case True
            with c f k show ?thesis by simp
          next
            case False
            with c show ?thesis by simp
          qed
        qed
        have "gather E self (i # sched) ts w = gather E self sched (ts[i := t1]) w1"
          using nt False s nr by (cases "estado t1") auto
        with Cons.IH [OF a b] show ?thesis by simp
      qed
    qed
  qed
qed

lemma step_sin_fallo:
  assumes "descargar_imagen E self t w = (t', w')" "sin_fallo E self t"
    and "is_dir w (directorio_imagenes self)" "\<not> is_dir w (ruta_de self (nombre_archivo t))"
  shows "sin_fallo E self t'"
proof (cases "estado t")
  case AwaitResponse
  with assms(1,2) show ?thesis
    by (auto simp: descargar_imagen_def sin_fallo_def split: img_reply.splits if_splits)
next
  case AwaitBody
  with assms(2) obtain status contenido where
    r: "img E (url t) = ImgResponse status (Some contenido)"
    and f: "fault E (ruta_de self (nombre_archivo t)) = NoFault"
    by (auto simp: sin_fallo_def split: img_reply.splits)
  have "butlast (ruta_de self (nombre_archivo t)) = directorio_imagenes self"
    by (simp add: ruta_de_def)
  with assms(3,4) f have "fst (escribir E (ruta_de self (nombre_archivo t)) contenido w) = None"
    by (intro escribir_ok) simp_all
  with AwaitBody r assms(1) show ?thesis
    by (auto simp: descargar_imagen_def sin_fallo_def ruta_de_def split: prod.splits option.splits)
next
  case Returned
  with assms(1,2) show ?thesis by (auto simp: descargar_imagen_def)
next
  case (Raised e)
  with assms(2) show ?thesis by (simp add: sin_fallo_def)
qed

lemma sin_fallo_not_raised: "sin_fallo E self t \<Longrightarrow> estado t \<noteq> Raised e"
  by (auto simp: sin_fallo_def)

text \<open>When no task can fail, none is left by an exception and \<open>gather\<close> raises nothing.\<close>

lemma gather_sin_fallos:
  "\<forall>t \<in> set ts. sin_fallo E self t \<and> \<not> is_dir w (ruta_de self (nombre_archivo t)) \<Longrightarrow>
   is_dir w (directorio_imagenes self) \<Longrightarrow>
   fst (gather E self sched ts w) \<noteq> Some (Inl e)"
proof (induction sched arbitrary: ts w)
  case Nil
  then show ?case by simp
next
  case (Cons i sched)
  show ?case
  proof (cases "todas_terminadas ts \<or> length ts \<le> i")
    case True
    with Cons.IH [OF Cons.prems] show ?thesis by auto
  next
    case False
    then have i: "i < length ts" and nt: "\<not> todas_terminadas ts" by auto
    obtain t1 w1 where s: "descargar_imagen E self (ts ! i) w = (t1, w1)"
      by (cases "descargar_imagen E self (ts ! i) w")
    from i Cons.prems(1) have ti: "sin_fallo E self (ts ! i)"
      "\<not> is_dir w (ruta_de self (nombre_archivo (ts ! i)))" by (auto intro: nth_mem)
    from step_sin_fallo [OF s ti(1) Cons.prems(2) ti(2)] have s1: "sin_fallo E self t1" .
    then have nr: "\<forall>e. estado t1 \<noteq> Raised e" by (auto dest: sin_fallo_not_raised)
    note f = step_frame [OF s]
    have a: "\<forall>t \<in> set (ts[i := t1]). sin_fallo E self t \<and> \<not> is_dir w1 (ruta_de self (nombre_archivo t))"
    proof
      fix t assume "t \<in> set (ts[i := t1])"
      from set_update_cases [OF this] show "sin_fallo E self t \<and> \<not> is_dir w1 (ruta_de self (nombre_archivo t))"
      proof
        assume "t = t1"
        with s1 f ti(2) show ?thesis by simp
      next
        assume "t \<in> set ts"
        with Cons.prems(1) f show ?thesis by simp
      qed
    qed
    have b: "is_dir w1 (directorio_imagenes self)" using f Cons.prems(2) by simp
    have "gather E self (i # sched) ts w = gather E self sched (ts[i := t1]) w1"
      using nt i s nr by (cases "estado t1") auto
    with Cons.IH [OF a b] show ?thesis by simp
  qed
qed

lemma step_stdout_grows:
  assumes "descargar_imagen E self t w = (t', w')"
  shows "\<exists>ls. stdout w' = stdout w @ ls"
  using descargar_imagen_cases [OF assms]
proof (elim disjE conjE exE)
  fix status contenido w1
  assume "escribir E (ruta_de self (nombre_archivo t)) contenido w = (None, w1)"
    "w' = print (informe E t) w1"
  with escribir_result [of E _ contenido w None w1] show ?thesis by (simp add: print_def)
qed (simp_all add: print_def)

lemma gather_stdout_grows:
  "gather E self sched ts w = (r, ts', w') \<Longrightarrow> \<exists>ls. stdout w' = stdout w @ ls"
proof (induction sched arbitrary: ts w)
  case Nil
  then show ?case by (auto split: if_splits)
next
  case (Cons i sched)
  from gather_Cons_cases [OF Cons.prems] show ?case
  proof (elim disjE conjE exE)
    assume "w' = w"
    then show ?thesis by simp
  next
    assume "gather E self sched ts w = (r, ts', w')"
    then show ?thesis by (rule Cons.IH)
  next
    fix t1 w1 e
    assume "descargar_imagen E self (ts ! i) w = (t1, w1)" "w' = w1"
    with step_stdout_grows show ?thesis by blast
  next
    fix t1 w1
    assume s: "descargar_imagen E self (ts ! i) w = (t1, w1)"
      and g: "gather E self sched (ts[i := t1]) w1 = (r, ts', w')"
    from step_stdout_grows [OF s] Cons.IH [OF g] show ?thesis by auto
  qed
qed

text \<open>A task that has returned has printed its line.\<close>

lemma gather_report:
  "gather E self sched ts w = (r, ts', w') \<Longrightarrow> k < length ts \<Longrightarrow>
   pendiente (ts ! k) \<Longrightarrow> estado (ts' ! k) = Returned \<Longrightarrow>
   \<exists>xs ys. stdout w' = stdout w @ xs @ informe E (ts ! k) # ys"
proof (induction sched arbitrary: ts w)
  case Nil
  then show ?case by (auto simp: pendiente_def split: if_splits)
next
  case (Cons i sched)
  from gather_Cons_cases [OF Cons.prems(1)] show ?case
  proof (elim disjE conjE exE)
    assume "ts' = ts"
    with Cons.prems show ?thesis by (auto simp: pendiente_def)
  next
    assume "gather E self sched ts w = (r, ts', w')"
    from Cons.IH [OF this Cons.prems(2-4)] show ?thesis .
  next
    fix t1 w1 e
    assume "estado t1 = Raised e" "ts' = ts[i := t1]" "i < length ts"
    with Cons.prems(2-4) show ?thesis
      by (cases "k = i") (auto simp: pendiente_def)
  next
    fix t1 w1
    assume i: "i < length ts" and s: "descargar_imagen E self (ts ! i) w = (t1, w1)"
      and g: "gather E self sched (ts[i := t1]) w1 = (r, ts', w')"
    have k: "k < length (ts[i := t1])" using Cons.prems(2) by simp
    from gather_stdout_grows [OF g] obtain zs where zs: "stdout w' = stdout w1 @ zs" by blast
    from step_stdout_grows [OF s] obtain us where us: "stdout w1 = stdout w @ us" by blast
    show ?thesis
    proof (cases "k = i")
      case False
      then have "ts[i := t1] ! k = ts ! k" by simp
      with Cons.IH [OF g k] Cons.prems(3,4) obtain xs ys where
        "stdout w' = stdout w1 @ xs @ informe E (ts ! k) # ys" by auto
      with us have "stdout w' = stdout w @ (us @ xs) @ informe E (ts ! k) # ys" by simp
      then show ?thesis by blast
    next
      case True
      from descargar_imagen_cases [OF s] show ?thesis
      proof (elim disjE conjE exE)
        assume "\<not> pendiente (ts ! i)"
        with True Cons.prems(3) show ?thesis by simp
      next
        assume a: "estado (ts ! i) = AwaitResponse" "escribe E (ts ! i)"
          "t1 = (ts ! i)\<lparr>estado := AwaitBody\<rparr>" "w1 = w"
        then have "pendiente (ts[i := t1] ! k)" "informe E (ts[i := t1] ! k) = informe E (ts ! k)"
          using True i
          by (auto simp: pendiente_def informe_def escribe_def split: img_reply.splits)
        with Cons.IH [OF g k] Cons.prems(4) a(4) show ?thesis by auto
      next
        assume a: "w1 = print (informe E (ts ! i)) w"
        with zs True have "stdout w' = stdout w @ [] @ informe E (ts ! k) # zs"
          by (simp add: print_def)
        then show ?thesis by blast
      next
        fix status contenido w2
        assume a: "escribir E (ruta_de self (nombre_archivo (ts ! i))) contenido w = (None, w2)"
          "w1 = print (informe E (ts ! i)) w2"
        from escribir_result [OF a(1)] have "stdout w2 = stdout w" by simp
        with a(2) zs True have "stdout w' = stdout w @ [] @ informe E (ts ! k) # zs"
          by (simp add: print_def)
        then show ?thesis by blast
      next
        fix e
        assume "t1 = (ts ! i)\<lparr>estado := Raised e\<rparr>"
        then have np: "\<not> pendiente (ts[i := t1] ! k)" using True i by (simp add: pendiente_def)
        from gather_settled [OF g k np] \<open>t1 = (ts ! i)\<lparr>estado := Raised e\<rparr>\<close> True i Cons.prems(4)
        show ?thesis by simp
      qed
    qed
  qed
qed

text \<open>What every resumption keeps true of a task, the whole wait keeps true of it.\<close>

lemma gather_task_invariant:
  assumes step: "\<And>t w t' w'. P t \<Longrightarrow> descargar_imagen E self t w = (t', w') \<Longrightarrow> P t'"
  shows "gather E self sched ts w = (r, ts', w') \<Longrightarrow> k < length ts \<Longrightarrow> P (ts ! k) \<Longrightarrow> P (ts' ! k)"
proof (induction sched arbitrary: ts w)
  case Nil
  then show ?case by (auto split: if_splits)
next
  case (Cons i sched)
  from gather_Cons_cases [OF Cons.prems(1)] show ?case
  proof (elim disjE conjE exE)
    assume "ts' = ts"
    with Cons.prems show ?thesis by simp
  next
    assume "gather E self sched ts w = (r, ts', w')"
    from Cons.IH [OF this Cons.prems(2,3)] show ?thesis .
  next
    fix t1 w1 e
    assume "descargar_imagen E self (ts ! i) w = (t1, w1)" "ts' = ts[i := t1]" "i < length ts"
    with Cons.prems(2,3) step [of "ts ! i" w t1 w1] show ?thesis
      by (cases "k = i") auto
  next
    fix t1 w1
    assume i: "i < length ts" and s: "descargar_imagen E self (ts ! i) w = (t1, w1)"
      and g: "gather E self sched (ts[i := t1]) w1 = (r, ts', w')"
    have "P (ts[i := t1] ! k)"
      using Cons.prems(2,3) step [OF _ s] i by (cases "k = i") auto
    moreover have "k < length (ts[i := t1])" using Cons.prems(2) by simp
    ultimately show ?thesis using Cons.IH [OF g] by blast
  qed
qed

lemma step_falla_aislada:
  "falla_aislada E t \<Longrightarrow> descargar_imagen E self t w = (t', w') \<Longrightarrow> falla_aislada E t'"
  by (auto simp: falla_aislada_def descargar_imagen_def split: img_reply.splits if_splits)

lemma step_sin_respuesta:
  "sin_respuesta E t \<Longrightarrow> descargar_imagen E self t w = (t', w') \<Longrightarrow> sin_respuesta E t'"
  by (auto simp: sin_respuesta_def descargar_imagen_def)

subsection \<open>The batch and the whole run\<close>

lemma is_dir_print [simp]: "is_dir (print s w) q = is_dir w q"
  by (simp add: print_def is_dir_def)

lemma is_dir_send [simp]: "is_dir (send rs w) q = is_dir w q"
  by (simp add: send_def is_dir_def)

lemma obtener_frame:
  "obtener_urls_imagenes E self consulta cantidad w = (r, w1) \<Longrightarrow>
   nodes w1 = nodes w
   \<and> traffic w1 = traffic w @ [OpenSession, ApiGet URL_BASE (parametros self consulta cantidad)]"
  by (auto simp: obtener_urls_imagenes_def send_def print_def Let_def
           split: api_reply.splits api_body.splits if_splits sum.splits)

lemma lanzar_tasks:
  assumes "lanzar E self sched urls w = (r, ts, w')"
  shows "length ts = length urls"
    and "i < length urls \<Longrightarrow> url (ts ! i) = urls ! i"
    and "i < length urls \<Longrightarrow> nombre_archivo (ts ! i) = nombre_de i"
    and "traffic w' = traffic w @ OpenSession # map ImgGet urls"
    and "is_dir w' q = is_dir w q"
proof -
  from assms have g: "gather E self sched (crear_tareas urls) (send (OpenSession # map ImgGet urls) w) = (r, ts, w')"
    by (simp add: lanzar_def)
  note f = gather_frame [OF g]
  from f show len: "length ts = length urls" by (simp add: crear_tareas_length)
  from f show "traffic w' = traffic w @ OpenSession # map ImgGet urls" by (simp add: send_def)
  from f show "is_dir w' q = is_dir w q" by simp
  assume i: "i < length urls"
  from f have "map url ts ! i = map url (crear_tareas urls) ! i" by simp
  with i len show "url (ts ! i) = urls ! i" by (simp add: crear_tareas_length crear_tareas_nth)
  from f have "map nombre_archivo ts ! i = map nombre_archivo (crear_tareas urls) ! i" by simp
  with i len show "nombre_archivo (ts ! i) = nombre_de i"
    by (simp add: crear_tareas_length crear_tareas_nth)
qed

lemma concurrentes_lanzar:
  assumes "obtener_urls_imagenes E self consulta cantidad w0 = (Inr urls, w)" "urls \<noteq> []"
    and "lanzar E self sched urls w = (r, ts, w')"
  shows "descargar_imagenes_concurrentes E self consulta cantidad sched w0 =
           (case r of
              None \<Rightarrow> (None, w')
            | Some (Inl e) \<Rightarrow> (Some (Inl e), w')
            | Some (Inr u) \<Rightarrow> (Some (Inr ()), print TODAS_DESCARGADAS w'))"
  using assms
  by (auto simp: descargar_imagenes_concurrentes_def split: option.splits sum.splits)

lemma concurrentes_is_dir:
  "is_dir (snd (descargar_imagenes_concurrentes E self consulta cantidad sched w)) q = is_dir w q"
proof -
  obtain r1 w1 where o: "obtener_urls_imagenes E self consulta cantidad w = (r1, w1)"
    by (cases "obtener_urls_imagenes E self consulta cantidad w")
  from obtener_frame [OF o] have d1: "is_dir w1 q = is_dir w q" by (simp add: is_dir_def)
  show ?thesis
  proof (cases r1)
    case (Inl e)
    with o d1 show ?thesis by (simp add: descargar_imagenes_concurrentes_def)
  next
    case (Inr urls)
    show ?thesis
    proof (cases "urls = []")
      case True
      with Inr o d1 show ?thesis by (simp add: descargar_imagenes_concurrentes_def)
    next
      case False
      obtain r ts w2 where l: "lanzar E self sched urls w1 = (r, ts, w2)"
        by (cases "lanzar E self sched urls w1") auto
      from lanzar_tasks(5) [OF l] d1 have "is_dir w2 q = is_dir w q" by simp
      with concurrentes_lanzar [of E self consulta cantidad w urls w1 sched r ts w2] o Inr False l
      show ?thesis by (auto split: option.splits sum.splits)
    qed
  qed
qed

lemma informe_inicial:
  "i < length urls \<Longrightarrow> img E (urls ! i) = ImgResponse status cuerpo \<Longrightarrow>
   informe E (crear_tareas urls ! i) =
     (if status = 200 then COMPLETADA (nombre_de i) else FALLIDA (nombre_de i) status)"
  by (simp add: informe_def crear_tareas_nth)

lemma pendiente_inicial: "i < length urls \<Longrightarrow> pendiente (crear_tareas urls ! i)"
  by (simp add: pendiente_def crear_tareas_nth)

lemma no_raised_inicial: "\<forall>t \<in> set (crear_tareas urls). \<forall>e. estado t \<noteq> Raised e"
  by (auto dest: crear_tareas_estado)

lemma faltan_inicial: "k < length urls \<Longrightarrow> faltan (crear_tareas urls ! k) = 2"
  by (simp add: faltan_def crear_tareas_nth)

lemma gather_falla_aislada:
  assumes "gather E self sched ts w = (r, ts', w')" "k < length ts" "falla_aislada E (ts ! k)"
  shows "falla_aislada E (ts' ! k)"
proof (rule gather_task_invariant [where P = "falla_aislada E", OF _ assms])
  fix t w t' w' assume "falla_aislada E t" "descargar_imagen E self t w = (t', w')"
  then show "falla_aislada E t'" by (rule step_falla_aislada)
qed

lemma gather_sin_respuesta:
  assumes "gather E self sched ts w = (r, ts', w')" "k < length ts" "sin_respuesta E (ts ! k)"
  shows "sin_respuesta E (ts' ! k)"
proof (rule gather_task_invariant [where P = "sin_respuesta E", OF _ assms])
  fix t w t' w' assume "sin_respuesta E t" "descargar_imagen E self t w = (t', w')"
  then show "sin_respuesta E t'" by (rule step_sin_respuesta)
qed

lemma nombres:
  "nombre_de 0 = ''imagen_1.jpg''" "nombre_de 1 = ''imagen_2.jpg''"
  "nombre_de (Suc 0) = ''imagen_2.jpg''"
  by (simp_all add: nombre_de_def py_str.simps digit_char_def)

section \<open>The properties\<close>

subsection \<open>C1: what one failing download does to the others\<close>

text \<open>
  C1, as the code has it. A download that is answered with a status other than 200 fails
  alone: its task reports the error and returns, it never raises, and whenever the batch
  returns, every task whose own request was answered with 200 has printed its completion
  line and has its file written. A transport failure is not caught in the task: the
  exception leaves the coroutine, \<^verbatim>\<open>gather\<close> raises it in
  \<^verbatim>\<open>descargar_imagenes_concurrentes\<close>, and the batch can no longer return normally:
  once every task has been resumed to its end, the batch has ended with an exception.
\<close>

theorem non_200_failure_is_isolated:
  assumes "lanzar E self sched urls w = (r, ts, w')" and "i < length urls"
  shows "((\<exists>status cuerpo. img E (urls ! i) = ImgResponse status cuerpo \<and> status \<noteq> 200)
            \<longrightarrow> estado (ts ! i) = AwaitResponse \<or> estado (ts ! i) = Returned)
       \<and> (img E (urls ! i) = ImgUnreachable
            \<longrightarrow> (estado (ts ! i) = AwaitResponse \<or> estado (ts ! i) = Raised ClientError)
                \<and> r \<noteq> Some (Inr ()))
       \<and> (img E (urls ! i) = ImgUnreachable \<and> (\<forall>k<length urls. 2 \<le> count_list sched k)
            \<longrightarrow> (\<exists>e. r = Some (Inl e)))
       \<and> (\<forall>e. estado (ts ! i) = Raised e \<longrightarrow> r = Some (Inl e))
       \<and> (r = Some (Inr ()) \<longrightarrow>
            (\<forall>contenido. img E (urls ! i) = ImgResponse 200 (Some contenido) \<longrightarrow>
               COMPLETADA (nombre_de i) \<in> set (stdout w')
               \<and> nodes w' (ruta_de self (nombre_de i)) = Some (File contenido)))"
proof -
  from assms(1) have g: "gather E self sched (crear_tareas urls)
      (send (OpenSession # map ImgGet urls) w) = (r, ts, w')"
    by (simp add: lanzar_def)
  have k: "i < length (crear_tareas urls)" using assms(2) by (simp add: crear_tareas_length)
  have len: "length ts = length urls" using lanzar_tasks(1) [OF assms(1)] .
  have ret: "estado (ts ! i) = Returned" if "r = Some (Inr ())"
  proof -
    from that g have "todas_terminadas ts" by (auto dest: gather_returned)
    with len assms(2) show ?thesis by (simp add: todas_terminadas_def list_all_length)
  qed
  have a: "estado (ts ! i) = AwaitResponse \<or> estado (ts ! i) = Returned"
    if "\<exists>status cuerpo. img E (urls ! i) = ImgResponse status cuerpo \<and> status \<noteq> 200"
  proof -
    from that assms(2) have "falla_aislada E (crear_tareas urls ! i)"
      by (auto simp: falla_aislada_def crear_tareas_nth)
    from gather_falla_aislada [OF g k this]
    have "falla_aislada E (ts ! i)" .
    then show ?thesis by (simp add: falla_aislada_def)
  qed
  have b: "(estado (ts ! i) = AwaitResponse \<or> estado (ts ! i) = Raised ClientError)
           \<and> r \<noteq> Some (Inr ())"
    if "img E (urls ! i) = ImgUnreachable"
  proof -
    from that assms(2) have "sin_respuesta E (crear_tareas urls ! i)"
      by (simp add: sin_respuesta_def crear_tareas_nth)
    from gather_sin_respuesta [OF g k this]
    have "sin_respuesta E (ts ! i)" .
    then have "estado (ts ! i) = AwaitResponse \<or> estado (ts ! i) = Raised ClientError"
      by (simp add: sin_respuesta_def)
    with ret show ?thesis by auto
  qed
  have b': "\<exists>e. r = Some (Inl e)"
    if u: "img E (urls ! i) = ImgUnreachable" and c: "\<forall>k<length urls. 2 \<le> count_list sched k"
  proof -
    from c have "\<forall>k<length (crear_tareas urls). faltan (crear_tareas urls ! k) \<le> count_list sched k"
      by (simp add: crear_tareas_length faltan_inicial)
    from gather_ends [OF no_raised_inicial this, of E self "send (OpenSession # map ImgGet urls) w"] g
    have "r \<noteq> None" by simp
    with b [OF u] show ?thesis by (cases r) (auto intro: sum.exhaust)
  qed
  have c: "r = Some (Inl e)" if "estado (ts ! i) = Raised e" for e
    using gather_raised [OF g no_raised_inicial] that assms(2) len by simp
  have d: "COMPLETADA (nombre_de i) \<in> set (stdout w')
           \<and> nodes w' (ruta_de self (nombre_de i)) = Some (File contenido)"
    if r: "r = Some (Inr ())" and im: "img E (urls ! i) = ImgResponse 200 (Some contenido)"
    for contenido
  proof -
    have p: "pendiente (crear_tareas urls ! i)" using assms(2) by (rule pendiente_inicial)
    from gather_report [OF g k p ret [OF r]] informe_inicial [OF assms(2) im]
    have "COMPLETADA (nombre_de i) \<in> set (stdout w')" by auto
    moreover from gather_file [OF g crear_tareas_distinct k p ret [OF r], of contenido] im assms(2)
    have "nodes w' (ruta_de self (nombre_de i)) = Some (File contenido)"
      by (simp add: crear_tareas_nth)
    ultimately show ?thesis by simp
  qed
  from a b b' c d show ?thesis by blast
qed

text \<open>
  C1 at work: the second image answers 404 and is resumed first, and the first image is
  still completed and written; with the first image unreachable the batch ends with the
  exception of its task.
\<close>

theorem non_200_failure_is_isolated_witness:
  "COMPLETADA ''imagen_1.jpg'' \<in> set (stdout (snd (snd (lanzar E_404 yo [1, 0, 0] dos_urls mundo))))
   \<and> nodes (snd (snd (lanzar E_404 yo [1, 0, 0] dos_urls mundo)))
        [''imagenes_descargadas'', ''imagen_1.jpg''] = Some (File ''JPEG'')
   \<and> (estado (fst (snd (lanzar E_404 yo [1, 0, 0] dos_urls mundo)) ! 1) = AwaitResponse
        \<or> estado (fst (snd (lanzar E_404 yo [1, 0, 0] dos_urls mundo)) ! 1) = Returned)
   \<and> fst (lanzar E_roto yo [1, 0] dos_urls mundo) = Some (Inl ClientError)"
proof -
  have l: "lanzar E_404 yo [1, 0, 0] dos_urls mundo =
      (fst (lanzar E_404 yo [1, 0, 0] dos_urls mundo),
       fst (snd (lanzar E_404 yo [1, 0, 0] dos_urls mundo)),
       snd (snd (lanzar E_404 yo [1, 0, 0] dos_urls mundo)))" by simp
  have i: "0 < length dos_urls" and j: "1 < length dos_urls" by (simp_all add: dos_urls_def)
  have r: "fst (lanzar E_404 yo [1, 0, 0] dos_urls mundo) = Some (Inr ())" by code_simp
  have im: "img E_404 (dos_urls ! 0) = ImgResponse 200 (Some ''JPEG'')"
    by (simp add: E_404_def E_dos_def dos_urls_def)
  have jm: "\<exists>status cuerpo. img E_404 (dos_urls ! 1) = ImgResponse status cuerpo \<and> status \<noteq> 200"
    by (simp add: E_404_def E_dos_def dos_urls_def)
  have l2: "lanzar E_roto yo [1, 0] dos_urls mundo =
      (fst (lanzar E_roto yo [1, 0] dos_urls mundo),
       fst (snd (lanzar E_roto yo [1, 0] dos_urls mundo)),
       snd (snd (lanzar E_roto yo [1, 0] dos_urls mundo)))" by simp
  have im2: "img E_roto (dos_urls ! 0) = ImgUnreachable"
    by (simp add: E_roto_def E_dos_def dos_urls_def)
  have e2: "estado (fst (snd (lanzar E_roto yo [1, 0] dos_urls mundo)) ! 0) = Raised ClientError"
    by code_simp
  from non_200_failure_is_isolated [OF l i] r im
  have a: "COMPLETADA ''imagen_1.jpg'' \<in> set (stdout (snd (snd (lanzar E_404 yo [1, 0, 0] dos_urls mundo))))
     \<and> nodes (snd (snd (lanzar E_404 yo [1, 0, 0] dos_urls mundo)))
        [''imagenes_descargadas'', ''imagen_1.jpg''] = Some (File ''JPEG'')"
    by (simp add: nombres ruta_de_def yo_def)
  from non_200_failure_is_isolated [OF l j] jm
  have b: "estado (fst (snd (lanzar E_404 yo [1, 0, 0] dos_urls mundo)) ! 1) = AwaitResponse
        \<or> estado (fst (snd (lanzar E_404 yo [1, 0, 0] dos_urls mundo)) ! 1) = Returned"
    by blast
  from non_200_failure_is_isolated [OF l2 i] im2 e2
  have c: "fst (lanzar E_roto yo [1, 0] dos_urls mundo) = Some (Inl ClientError)"
    by simp
  from a b c show ?thesis by blast
qed

text \<open>
  C1 as the specification words it fails. The first reference is unreachable, the second
  would be served with a 200. The failure of the first task is no Failure outcome of that
  task: it ends the whole run with \<open>ClientError\<close>, the second task is left where it was,
  nothing is printed and the second file is never written.
\<close>

theorem transport_failure_aborts_batch_counterexample:
  "img E_roto (dos_urls ! 0) = ImgUnreachable
   \<and> img E_roto (dos_urls ! 1) = ImgResponse 200 (Some ''JPEG'')
   \<and> fst (obtener_urls_imagenes E_roto yo ''gatos'' 2 mundo) = Inr dos_urls
   \<and> map estado (fst (snd (lanzar E_roto yo [0] dos_urls
                                 (snd (obtener_urls_imagenes E_roto yo ''gatos'' 2 mundo)))))
       = [Raised ClientError, AwaitResponse]
   \<and> fst (descargar_imagenes_concurrentes E_roto yo ''gatos'' 2 [0] mundo)
       = Some (Inl ClientError)
   \<and> stdout (snd (descargar_imagenes_concurrentes E_roto yo ''gatos'' 2 [0] mundo)) = []
   \<and> nodes (snd (descargar_imagenes_concurrentes E_roto yo ''gatos'' 2 [0] mundo))
        [''imagenes_descargadas'', ''imagen_2.jpg''] = None"
  by code_simp

subsection \<open>C2: the barrier\<close>

text \<open>
  C2, as the code has it. For a non-empty list of references the function returns only
  when every launched task has returned, and the console then has received exactly one
  line per launched task (the function returns no value), followed by the closing message.
  Resuming every task twice is enough for the wait to end, and it ends with a return when
  no task can fail. When a task raises, the function leaves at once with that exception.
\<close>

theorem barrier_unless_a_task_raises:
  assumes "obtener_urls_imagenes E self consulta cantidad w0 = (Inr urls, w)" and "urls \<noteq> []"
    and "lanzar E self sched urls w = (r, ts, w')"
  shows "descargar_imagenes_concurrentes E self consulta cantidad sched w0 =
           (case r of
              None \<Rightarrow> (None, w')
            | Some (Inl e) \<Rightarrow> (Some (Inl e), w')
            | Some (Inr u) \<Rightarrow> (Some (Inr ()), print TODAS_DESCARGADAS w'))
       \<and> length ts = length urls
       \<and> (r = Some (Inr ()) \<longrightarrow>
            todas_terminadas ts
            \<and> (\<exists>ls. stdout w' = stdout w @ ls
                  \<and> mset ls = mset (map (informe E) (crear_tareas urls))))
       \<and> (\<forall>e. r = Some (Inl e) \<longrightarrow> (\<exists>k<length urls. estado (ts ! k) = Raised e))
       \<and> ((\<forall>k<length urls. 2 \<le> count_list sched k) \<longrightarrow> r \<noteq> None)
       \<and> ((\<forall>k<length urls. 2 \<le> count_list sched k)
            \<and> is_dir w (directorio_imagenes self)
            \<and> (\<forall>t \<in> set (crear_tareas urls).
                  sin_fallo E self t \<and> \<not> is_dir w (ruta_de self (nombre_archivo t)))
            \<longrightarrow> r = Some (Inr ()))"
proof -
  from assms(3) have g: "gather E self sched (crear_tareas urls)
      (send (OpenSession # map ImgGet urls) w) = (r, ts, w')"
    by (simp add: lanzar_def)
  have len: "length ts = length urls" using lanzar_tasks(1) [OF assms(3)] .
  have a: "todas_terminadas ts
           \<and> (\<exists>ls. stdout w' = stdout w @ ls \<and> mset ls = mset (map (informe E) (crear_tareas urls)))"
    if r: "r = Some (Inr ())"
  proof -
    from r g have t: "todas_terminadas ts" by (auto dest: gather_returned)
    from r g have "gather E self sched (crear_tareas urls)
        (send (OpenSession # map ImgGet urls) w) = (Some (Inr ()), ts, w')" by simp
    from gather_stdout [OF this] obtain ls where
      ls: "stdout w' = stdout w @ ls" "mset ls = pendientes E (crear_tareas urls)"
      by (auto simp: send_def)
    have "filter_mset pendiente (mset (crear_tareas urls)) = mset (crear_tareas urls)"
      by (rule filter_mset_eq_conv [THEN iffD2])
         (auto simp: pendiente_def dest: crear_tareas_estado)
    then have "pendientes E (crear_tareas urls) = mset (map (informe E) (crear_tareas urls))"
      by (simp add: pendientes_def)
    with t ls show ?thesis by auto
  qed
  have b: "\<exists>k<length urls. estado (ts ! k) = Raised e" if "r = Some (Inl e)" for e
    using gather_raised [OF g no_raised_inicial] that len by auto
  have c: "r \<noteq> None" if "\<forall>k<length urls. 2 \<le> count_list sched k"
  proof -
    from that have "\<forall>k<length (crear_tareas urls). faltan (crear_tareas urls ! k) \<le> count_list sched k"
      by (simp add: crear_tareas_length faltan_inicial)
    from gather_ends [OF no_raised_inicial this, of E self "send (OpenSession # map ImgGet urls) w"] g
    show ?thesis by simp
  qed
  have d: "r = Some (Inr ())"
    if "\<forall>k<length urls. 2 \<le> count_list sched k" "is_dir w (directorio_imagenes self)"
      "\<forall>t \<in> set (crear_tareas urls). sin_fallo E self t \<and> \<not> is_dir w (ruta_de self (nombre_archivo t))"
  proof -
    have "fst (gather E self sched (crear_tareas urls) (send (OpenSession # map ImgGet urls) w))
          \<noteq> Some (Inl e)" for e
      using that(2,3) by (intro gather_sin_fallos) simp_all
    with g have "\<forall>e. r \<noteq> Some (Inl e)" by simp
    with c [OF that(1)] show ?thesis by (cases r) (auto intro: sum.exhaust)
  qed
  from concurrentes_lanzar [OF assms] len a b c d show ?thesis by blast
qed

text \<open>
  C2 at work: two references, both served, the tasks resumed in the order 0, 1, 1, 0; and
  the same two with the first one unreachable.
\<close>

theorem barrier_unless_a_task_raises_witness:
  "descargar_imagenes_concurrentes E_dos yo ''gatos'' 2 [0, 1, 1, 0] mundo =
     (Some (Inr ()),
      print TODAS_DESCARGADAS
        (snd (snd (lanzar E_dos yo [0, 1, 1, 0] dos_urls
                     (snd (obtener_urls_imagenes E_dos yo ''gatos'' 2 mundo))))))
   \<and> todas_terminadas (fst (snd (lanzar E_dos yo [0, 1, 1, 0] dos_urls
                     (snd (obtener_urls_imagenes E_dos yo ''gatos'' 2 mundo)))))
   \<and> fst (descargar_imagenes_concurrentes E_roto yo ''gatos'' 2 [1, 0] mundo)
       = Some (Inl ClientError)"
proof -
  define W where "W = snd (obtener_urls_imagenes E_dos yo ''gatos'' 2 mundo)"
  have "fst (obtener_urls_imagenes E_dos yo ''gatos'' 2 mundo) = Inr dos_urls" by code_simp
  then have o: "obtener_urls_imagenes E_dos yo ''gatos'' 2 mundo = (Inr dos_urls, W)"
    by (simp add: W_def prod_eq_iff)
  have n: "dos_urls \<noteq> []" by (simp add: dos_urls_def)
  have l: "lanzar E_dos yo [0, 1, 1, 0] dos_urls W =
      (fst (lanzar E_dos yo [0, 1, 1, 0] dos_urls W),
       fst (snd (lanzar E_dos yo [0, 1, 1, 0] dos_urls W)),
       snd (snd (lanzar E_dos yo [0, 1, 1, 0] dos_urls W)))" by simp
  have c: "\<forall>k<length dos_urls. 2 \<le> count_list [0, 1, 1, 0] k"
    by (auto simp: dos_urls_def dest!: less_2_cases)
  have d: "is_dir W (directorio_imagenes yo)" unfolding W_def by code_simp
  have s: "\<forall>t \<in> set (crear_tareas dos_urls).
             sin_fallo E_dos yo t \<and> \<not> is_dir W (ruta_de yo (nombre_archivo t))"
    unfolding W_def by code_simp
  from barrier_unless_a_task_raises [OF o n l] c d s
  have first: "descargar_imagenes_concurrentes E_dos yo ''gatos'' 2 [0, 1, 1, 0] mundo =
     (Some (Inr ()), print TODAS_DESCARGADAS (snd (snd (lanzar E_dos yo [0, 1, 1, 0] dos_urls W))))
   \<and> todas_terminadas (fst (snd (lanzar E_dos yo [0, 1, 1, 0] dos_urls W)))"
    by simp
  define V where "V = snd (obtener_urls_imagenes E_roto yo ''gatos'' 2 mundo)"
  define L where "L = lanzar E_roto yo [1, 0] dos_urls V"
  have "fst (obtener_urls_imagenes E_roto yo ''gatos'' 2 mundo) = Inr dos_urls" by code_simp
  then have o2: "obtener_urls_imagenes E_roto yo ''gatos'' 2 mundo = (Inr dos_urls, V)"
    by (simp add: V_def prod_eq_iff)
  have "fst L = Some (Inl ClientError)" unfolding L_def V_def by code_simp
  then have l2: "lanzar E_roto yo [1, 0] dos_urls V = (Some (Inl ClientError), fst (snd L), snd (snd L))"
    by (simp add: L_def prod_eq_iff)
  from barrier_unless_a_task_raises [OF o2 n l2]
  have "fst (descargar_imagenes_concurrentes E_roto yo ''gatos'' 2 [1, 0] mundo)
          = Some (Inl ClientError)" by simp
  with first show ?thesis unfolding W_def by simp
qed

text \<open>
  C2 as the specification words it fails. The second task has its response and waits for
  the body when the first one fails: the function leaves with \<open>ClientError\<close> while that
  task is still in flight, and no outcome has been reported for either task.
\<close>

theorem early_exit_counterexample:
  "fst (obtener_urls_imagenes E_roto yo ''gatos'' 2 mundo) = Inr dos_urls
   \<and> dos_urls \<noteq> []
   \<and> fst (descargar_imagenes_concurrentes E_roto yo ''gatos'' 2 [1, 0] mundo)
       = Some (Inl ClientError)
   \<and> map estado (fst (snd (lanzar E_roto yo [1, 0] dos_urls
                                 (snd (obtener_urls_imagenes E_roto yo ''gatos'' 2 mundo)))))
       = [Raised ClientError, AwaitBody]
   \<and> stdout (snd (descargar_imagenes_concurrentes E_roto yo ''gatos'' 2 [1, 0] mundo)) = []"
  by code_simp

subsection \<open>C3: how many references the resolver returns\<close>

text \<open>
  C3, as the code has it. For any requested count and any 200 response whose body is an
  object with a \<^verbatim>\<open>hits\<close> array of objects that each carry \<^verbatim>\<open>largeImageURL\<close>, the
  resolver returns one reference per hit, the values of that field in the order of the
  response. The count is only sent to the API as \<^verbatim>\<open>per_page\<close>; the result is within it
  exactly when the API answered within it.
\<close>

theorem resolver_returns_every_hit:
  assumes "api E URL_BASE (parametros self consulta K) = ApiResponse 200 (BodyJson datos)"
    and "getitem datos ''hits'' = Inr (JArr hits)"
    and "\<forall>h \<in> set hits. \<exists>u. getitem h ''largeImageURL'' = Inr u"
  shows "\<exists>urls. fst (obtener_urls_imagenes E self consulta K w) = Inr urls
           \<and> map (\<lambda>h. getitem h ''largeImageURL'') hits = map Inr urls
           \<and> length urls = length hits
           \<and> (int (length urls) \<le> K \<longleftrightarrow> int (length hits) \<le> K)"
proof -
  from large_urls_all [OF assms(3)] obtain urls where
    u: "large_urls hits = Inr urls" "map (\<lambda>h. getitem h ''largeImageURL'') hits = map Inr urls"
    by blast
  from u(2) have "length urls = length hits" by (metis length_map)
  moreover have "fst (obtener_urls_imagenes E self consulta K w) = Inr urls"
    using assms(1,2) u(1) by (simp add: obtener_urls_imagenes_def urls_of_def)
  ultimately show ?thesis using u(2) by auto
qed

text \<open>C3 at work: two hits, five requested.\<close>

theorem resolver_returns_every_hit_witness:
  "fst (obtener_urls_imagenes E_dos yo ''gatos'' 5 mundo) = Inr dos_urls"
proof -
  have a: "api E_dos URL_BASE (parametros yo ''gatos'' 5) = ApiResponse 200 (BodyJson dos_hits)"
    by (simp add: E_dos_def)
  have b: "getitem dos_hits ''hits'' = Inr (JArr [JObj [(''largeImageURL'', JStr ''https://cdn/a.jpg'')], JObj [(''id'', JNum 7), (''largeImageURL'', JStr ''https://cdn/b.jpg'')]])"
    by (simp add: dos_hits_def)
  have c: "\<forall>h \<in> set [JObj [(''largeImageURL'', JStr ''https://cdn/a.jpg'')], JObj [(''id'', JNum 7), (''largeImageURL'', JStr ''https://cdn/b.jpg'')]]. \<exists>u. getitem h ''largeImageURL'' = Inr u"
    by simp
  from resolver_returns_every_hit [OF a b c, of mundo] show ?thesis
    by (auto simp: dos_urls_def)
qed

text \<open>
  C3 as the specification words it fails: one image requested, a 200 response with two
  hits, two references returned.
\<close>

theorem resolver_exceeds_count_counterexample:
  "fst (obtener_urls_imagenes E_dos yo ''gatos'' 1 mundo) = Inr dos_urls
   \<and> \<not> int (length dos_urls) \<le> 1"
  by (simp add: obtener_urls_imagenes_def E_dos_def urls_of_def dos_hits_def dos_urls_def)

subsection \<open>C4: nothing to download\<close>

text \<open>
  C4. When the resolver returns no reference, the function prints the message that there
  is nothing to download and returns at once, whatever the schedule: no task is created,
  no session for downloads is opened (the only traffic of the run is the session and the
  request of the resolver), and the file tree is untouched.
\<close>

theorem nothing_to_download:
  assumes "obtener_urls_imagenes E self consulta cantidad w = (Inr [], w1)"
  shows "descargar_imagenes_concurrentes E self consulta cantidad sched w =
           (Some (Inr ()), w1\<lparr>stdout := stdout w1 @ [SIN_IMAGENES]\<rparr>)
       \<and> traffic w1 = traffic w @ [OpenSession, ApiGet URL_BASE (parametros self consulta cantidad)]
       \<and> nodes w1 = nodes w
       \<and> crear_tareas [] = []"
proof -
  have "traffic w1 = traffic w @ [OpenSession, ApiGet URL_BASE (parametros self consulta cantidad)]
        \<and> nodes w1 = nodes w"
    using assms
    by (auto simp: obtener_urls_imagenes_def send_def print_def Let_def
             split: api_reply.splits api_body.splits if_splits sum.splits)
  then show ?thesis using assms
    by (simp add: descargar_imagenes_concurrentes_def print_def crear_tareas_def)
qed

text \<open>C4 at work: a query without hits.\<close>

theorem nothing_to_download_witness:
  "descargar_imagenes_concurrentes E_nada yo ''zzzznotfound'' 5 [] mundo =
     (Some (Inr ()),
      \<lparr>nodes = nodes mundo, stdout = [SIN_IMAGENES],
       traffic = [OpenSession, ApiGet URL_BASE (parametros yo ''zzzznotfound'' 5)]\<rparr>)"
proof -
  have "obtener_urls_imagenes E_nada yo ''zzzznotfound'' 5 mundo =
          (Inr [], send [OpenSession, ApiGet URL_BASE (parametros yo ''zzzznotfound'' 5)] mundo)"
    by (simp add: obtener_urls_imagenes_def E_nada_def E_dos_def urls_of_def)
  from nothing_to_download [OF this, of "[]"] show ?thesis
    by (simp add: send_def mundo_def)
qed

subsection \<open>C5: the names of the files\<close>

text \<open>
  C5. The task of the reference at position \<open>i\<close> is named \<^verbatim>\<open>imagen_{i+1}.jpg\<close>; no two
  tasks share a name; whatever the order in which the tasks are resumed and whatever the
  directory held before, a task that returns after a 200 response has put the body into
  that file of the output directory, and nothing but these files is written.
\<close>

theorem deterministic_file_names:
  assumes "lanzar E self sched urls w = (r, ts, w')" and "i < length urls"
  shows "nombre_archivo (ts ! i) = ''imagen_'' @ py_str (i + 1) @ ''.jpg''
       \<and> url (ts ! i) = urls ! i
       \<and> (\<forall>j<length urls. nombre_archivo (ts ! j) = nombre_archivo (ts ! i) \<longrightarrow> j = i)
       \<and> (\<forall>contenido.
            estado (ts ! i) = Returned \<and> img E (urls ! i) = ImgResponse 200 (Some contenido) \<longrightarrow>
            nodes w' (directorio_imagenes self @ [''imagen_'' @ py_str (i + 1) @ ''.jpg''])
              = Some (File contenido))
       \<and> (\<forall>q. nodes w' q \<noteq> nodes w q \<longrightarrow>
            (\<exists>j<length urls. q = directorio_imagenes self @ [''imagen_'' @ py_str (j + 1) @ ''.jpg'']))"
proof -
  from assms(1) have g: "gather E self sched (crear_tareas urls)
      (send (OpenSession # map ImgGet urls) w) = (r, ts, w')"
    by (simp add: lanzar_def)
  have k: "i < length (crear_tareas urls)" using assms(2) by (simp add: crear_tareas_length)
  note t = lanzar_tasks [OF assms(1)]
  have a: "nombre_archivo (ts ! i) = ''imagen_'' @ py_str (i + 1) @ ''.jpg''"
    using t(3) [OF assms(2)] by (simp add: nombre_de_def)
  have b: "j = i" if "j < length urls" "nombre_archivo (ts ! j) = nombre_archivo (ts ! i)" for j
    using that t(3) [of j] t(3) [OF assms(2)] by (auto dest: nombre_de_inj)
  have c: "nodes w' (directorio_imagenes self @ [''imagen_'' @ py_str (i + 1) @ ''.jpg''])
             = Some (File contenido)"
    if "estado (ts ! i) = Returned" "img E (urls ! i) = ImgResponse 200 (Some contenido)"
    for contenido
    using gather_file [OF g crear_tareas_distinct k pendiente_inicial [OF assms(2)] that(1), of contenido]
      that(2) assms(2)
    by (simp add: crear_tareas_nth ruta_de_def nombre_de_def)
  have d: "\<exists>j<length urls. q = directorio_imagenes self @ [''imagen_'' @ py_str (j + 1) @ ''.jpg'']"
    if "nodes w' q \<noteq> nodes w q" for q
  proof -
    from that have "nodes w' q \<noteq> nodes (send (OpenSession # map ImgGet urls) w) q"
      by (simp add: send_def)
    from gather_writes [OF g this] obtain t where
      "t \<in> set (crear_tareas urls)" "q = ruta_de self (nombre_archivo t)" by blast
    then show ?thesis
      by (auto simp: in_set_conv_nth crear_tareas_length crear_tareas_nth ruta_de_def nombre_de_def)
  qed
  from a t(2) [OF assms(2)] b c d show ?thesis by blast
qed

text \<open>
  C5 at work: two orders of completion, over a directory that holds \<^verbatim>\<open>imagen_1.jpg\<close>
  from an earlier run.
\<close>

theorem deterministic_file_names_witness:
  "nodes (snd (snd (lanzar E_dos yo [0, 0, 1, 1] dos_urls mundo_previo)))
     [''imagenes_descargadas'', ''imagen_1.jpg''] = Some (File ''JPEG'')
   \<and> nodes (snd (snd (lanzar E_dos yo [1, 0, 1, 0] dos_urls mundo_previo)))
     [''imagenes_descargadas'', ''imagen_1.jpg''] = Some (File ''JPEG'')
   \<and> nombre_archivo (fst (snd (lanzar E_dos yo [1, 0, 1, 0] dos_urls mundo_previo)) ! 1)
       = ''imagen_2.jpg''"
proof -
  have l1: "lanzar E_dos yo [0, 0, 1, 1] dos_urls mundo_previo =
      (fst (lanzar E_dos yo [0, 0, 1, 1] dos_urls mundo_previo),
       fst (snd (lanzar E_dos yo [0, 0, 1, 1] dos_urls mundo_previo)),
       snd (snd (lanzar E_dos yo [0, 0, 1, 1] dos_urls mundo_previo)))" by simp
  have l2: "lanzar E_dos yo [1, 0, 1, 0] dos_urls mundo_previo =
      (fst (lanzar E_dos yo [1, 0, 1, 0] dos_urls mundo_previo),
       fst (snd (lanzar E_dos yo [1, 0, 1, 0] dos_urls mundo_previo)),
       snd (snd (lanzar E_dos yo [1, 0, 1, 0] dos_urls mundo_previo)))" by simp
  have i0: "0 < length dos_urls" and i1: "1 < length dos_urls" by (simp_all add: dos_urls_def)
  have e1: "estado (fst (snd (lanzar E_dos yo [0, 0, 1, 1] dos_urls mundo_previo)) ! 0) = Returned"
    by code_simp
  have e2: "estado (fst (snd (lanzar E_dos yo [1, 0, 1, 0] dos_urls mundo_previo)) ! 0) = Returned"
    by code_simp
  have im: "img E_dos (dos_urls ! 0) = ImgResponse 200 (Some ''JPEG'')"
    by (simp add: E_dos_def)
  have p: "py_str (0 + 1) = ''1''" "py_str (1 + 1) = ''2''"
    by (simp_all add: py_str.simps digit_char_def)
  from deterministic_file_names [OF l1 i0] deterministic_file_names [OF l2 i0]
    deterministic_file_names [OF l2 i1] e1 e2 im p
  show ?thesis by (simp add: yo_def)
qed

subsection \<open>C6: failures of the resolution that end the run\<close>

text \<open>
  C6. When the search request fails in transport, or its 200 response has a body that is
  lost, is not JSON or does not have the expected shape, the resolver raises: it returns
  no list at all, the exception ends \<^verbatim>\<open>descargar_imagenes_concurrentes\<close>, and neither a
  file nor a line of output has been produced.
\<close>

theorem resolver_fatal_error:
  assumes "api E URL_BASE (parametros self consulta cantidad) = ApiUnreachable
         \<or> api E URL_BASE (parametros self consulta cantidad) = ApiResponse 200 BodyLost
         \<or> api E URL_BASE (parametros self consulta cantidad) = ApiResponse 200 BodyMalformed
         \<or> (\<exists>datos e. api E URL_BASE (parametros self consulta cantidad) = ApiResponse 200 (BodyJson datos)
                \<and> urls_of datos = Inl e)"
  shows "\<exists>e w'. obtener_urls_imagenes E self consulta cantidad w = (Inl e, w')
           \<and> descargar_imagenes_concurrentes E self consulta cantidad sched w = (Some (Inl e), w')
           \<and> nodes w' = nodes w \<and> stdout w' = stdout w"
  using assms
  by (auto simp: obtener_urls_imagenes_def descargar_imagenes_concurrentes_def send_def)

text \<open>C6 at work: the search endpoint cannot be reached.\<close>

theorem resolver_fatal_error_witness:
  "\<exists>e w'. obtener_urls_imagenes E_caido yo ''gatos'' 5 mundo = (Inl e, w')
           \<and> descargar_imagenes_concurrentes E_caido yo ''gatos'' 5 [] mundo = (Some (Inl e), w')
           \<and> nodes w' = nodes mundo \<and> stdout w' = stdout mundo"
proof -
  have "api E_caido URL_BASE (parametros yo ''gatos'' 5) = ApiUnreachable"
    by (simp add: E_caido_def E_dos_def)
  then show ?thesis using resolver_fatal_error [of E_caido yo "''gatos''" 5 mundo "[]"] by blast
qed

subsection \<open>C7: a search that is refused\<close>

text \<open>
  C7. On a status other than 200 the resolver prints the status and returns the empty
  list without reading the body; the run then prints that there is nothing to download
  and returns normally.
\<close>

theorem resolver_soft_failure:
  assumes "api E URL_BASE (parametros self consulta cantidad) = ApiResponse status body"
    and "status \<noteq> 200"
  shows "obtener_urls_imagenes E self consulta cantidad w =
           (Inr [], print (''Error en la solicitud a la API: '' @ py_str status)
                      (send [OpenSession, ApiGet URL_BASE (parametros self consulta cantidad)] w))
       \<and> descargar_imagenes_concurrentes E self consulta cantidad sched w =
           (Some (Inr ()), print SIN_IMAGENES
              (print (''Error en la solicitud a la API: '' @ py_str status)
                 (send [OpenSession, ApiGet URL_BASE (parametros self consulta cantidad)] w)))"
  using assms
  by (simp add: obtener_urls_imagenes_def descargar_imagenes_concurrentes_def)

text \<open>C7 at work: the API answers 403.\<close>

theorem resolver_soft_failure_witness:
  "fst (obtener_urls_imagenes E_403 yo ''gatos'' 5 mundo) = Inr []
   \<and> fst (descargar_imagenes_concurrentes E_403 yo ''gatos'' 5 [] mundo) = Some (Inr ())
   \<and> stdout (snd (descargar_imagenes_concurrentes E_403 yo ''gatos'' 5 [] mundo)) =
       [''Error en la solicitud a la API: 403'', SIN_IMAGENES]"
proof -
  have a: "api E_403 URL_BASE (parametros yo ''gatos'' 5) = ApiResponse 403 BodyMalformed"
    by (simp add: E_403_def E_dos_def)
  have b: "(403::nat) \<noteq> 200" by simp
  have c: "py_str 403 = ''403''" by code_simp
  from resolver_soft_failure [OF a b, of mundo "[]"] c show ?thesis
    by (simp add: print_def send_def mundo_def)
qed

subsection \<open>C8: a download that is refused\<close>

text \<open>
  C8. A task whose response has a status other than 200 prints the error line with its
  file name and the status and returns; it never raises, and through the whole batch no
  byte is written to its target path.
\<close>

theorem non_200_reports_and_writes_nothing:
  assumes "lanzar E self sched urls w = (r, ts, w')" and "i < length urls"
    and "img E (urls ! i) = ImgResponse status cuerpo" and "status \<noteq> 200"
  shows "descargar_imagen E self (crear_tareas urls ! i) w0 =
           ((crear_tareas urls ! i)\<lparr>estado := Returned\<rparr>,
            w0\<lparr>stdout := stdout w0 @ [''Error descargando '' @ nombre_de i @ '': '' @ py_str status]\<rparr>)
       \<and> nodes w' (ruta_de self (nombre_de i)) = nodes w (ruta_de self (nombre_de i))
       \<and> (estado (ts ! i) = AwaitResponse \<or> estado (ts ! i) = Returned)
       \<and> (estado (ts ! i) = Returned \<longrightarrow>
            (\<exists>xs ys. stdout w' = stdout w @ xs
                        @ (''Error descargando '' @ nombre_de i @ '': '' @ py_str status) # ys))"
proof -
  from assms(1) have g: "gather E self sched (crear_tareas urls)
      (send (OpenSession # map ImgGet urls) w) = (r, ts, w')"
    by (simp add: lanzar_def)
  have k: "i < length (crear_tareas urls)" using assms(2) by (simp add: crear_tareas_length)
  have a: "descargar_imagen E self (crear_tareas urls ! i) w0 =
           ((crear_tareas urls ! i)\<lparr>estado := Returned\<rparr>,
            w0\<lparr>stdout := stdout w0 @ [''Error descargando '' @ nombre_de i @ '': '' @ py_str status]\<rparr>)"
    using assms(2-4) by (simp add: descargar_imagen_def crear_tareas_nth print_def)
  have b: "nodes w' (ruta_de self (nombre_de i)) = nodes w (ruta_de self (nombre_de i))"
  proof (rule ccontr)
    assume "nodes w' (ruta_de self (nombre_de i)) \<noteq> nodes w (ruta_de self (nombre_de i))"
    then have "nodes w' (ruta_de self (nombre_de i))
        \<noteq> nodes (send (OpenSession # map ImgGet urls) w) (ruta_de self (nombre_de i))"
      by (simp add: send_def)
    from gather_writes [OF g this] obtain t where
      t: "t \<in> set (crear_tareas urls)" "escribe E t"
         "ruta_de self (nombre_de i) = ruta_de self (nombre_archivo t)" by blast
    from t(1) obtain j where j: "j < length urls" "t = crear_tareas urls ! j"
      by (auto simp: in_set_conv_nth crear_tareas_length)
    with t(3) have "nombre_de i = nombre_de j" by (simp add: ruta_de_def crear_tareas_nth)
    then have "i = j" by (rule nombre_de_inj)
    with j t(2) assms(2-4) show False by (simp add: escribe_def crear_tareas_nth)
  qed
  have "falla_aislada E (crear_tareas urls ! i)"
    using assms(2-4) by (simp add: falla_aislada_def crear_tareas_nth)
  from gather_falla_aislada [OF g k this]
  have "falla_aislada E (ts ! i)" .
  then have c: "estado (ts ! i) = AwaitResponse \<or> estado (ts ! i) = Returned"
    by (simp add: falla_aislada_def)
  have d: "\<exists>xs ys. stdout w' = stdout w @ xs
                        @ (''Error descargando '' @ nombre_de i @ '': '' @ py_str status) # ys"
    if "estado (ts ! i) = Returned"
    using gather_report [OF g k pendiente_inicial [OF assms(2)] that]
      informe_inicial [OF assms(2,3)] assms(4)
    by (simp add: FALLIDA_def send_def)
  from a b c d show ?thesis by blast
qed

text \<open>C8 at work: the second image answers 404.\<close>

theorem non_200_reports_and_writes_nothing_witness:
  "descargar_imagen E_404 yo (crear_tareas dos_urls ! 1) mundo =
     ((crear_tareas dos_urls ! 1)\<lparr>estado := Returned\<rparr>,
      mundo\<lparr>stdout := [''Error descargando imagen_2.jpg: 404'']\<rparr>)
   \<and> nodes (snd (snd (lanzar E_404 yo [1, 0, 0] dos_urls mundo)))
        [''imagenes_descargadas'', ''imagen_2.jpg''] = None"
proof -
  have l: "lanzar E_404 yo [1, 0, 0] dos_urls mundo =
      (fst (lanzar E_404 yo [1, 0, 0] dos_urls mundo),
       fst (snd (lanzar E_404 yo [1, 0, 0] dos_urls mundo)),
       snd (snd (lanzar E_404 yo [1, 0, 0] dos_urls mundo)))" by simp
  have i: "1 < length dos_urls" by (simp add: dos_urls_def)
  have im: "img E_404 (dos_urls ! 1) = ImgResponse 404 (Some ''no'')"
    by (simp add: E_404_def E_dos_def dos_urls_def)
  have s: "(404::nat) \<noteq> 200" by simp
  have p: "py_str 404 = ''404''" by code_simp
  from non_200_reports_and_writes_nothing [OF l i im s, of mundo] p
  show ?thesis by (simp add: nombres ruta_de_def yo_def mundo_def)
qed

subsection \<open>C9: a failure of the file system\<close>

text \<open>
  C9, as the code has it. A file that cannot be opened or written is no failure of one
  item: the error leaves the task, \<^verbatim>\<open>gather\<close> raises it at once, and
  \<^verbatim>\<open>descargar_imagenes_concurrentes\<close> ends with it, without the closing message. A
  directory that cannot be created makes the constructor raise.
\<close>

theorem filesystem_failure_leaves_the_batch:
  assumes "estado t = AwaitBody" and "img E (url t) = ImgResponse status (Some contenido)"
    and "escribir E (ruta_de self (nombre_archivo t)) contenido w = (Some e, w1)"
  shows "descargar_imagen E self t w = (t\<lparr>estado := Raised e\<rparr>, w1)
       \<and> (\<forall>ts i sched. i < length ts \<and> ts ! i = t \<longrightarrow>
            gather E self (i # sched) ts w = (Some (Inl e), ts[i := t\<lparr>estado := Raised e\<rparr>], w1))
       \<and> (\<forall>consulta cantidad w0 urls wa sched ts wb.
            obtener_urls_imagenes E self consulta cantidad w0 = (Inr urls, wa) \<and> urls \<noteq> []
            \<and> lanzar E self sched urls wa = (Some (Inl e), ts, wb) \<longrightarrow>
            descargar_imagenes_concurrentes E self consulta cantidad sched w0 = (Some (Inl e), wb))
       \<and> (\<forall>key dir wd e' wd'. makedirs E dir wd = (Some e', wd') \<longrightarrow>
            init E key dir wd = (Inl e', wd'))"
proof -
  have a: "descargar_imagen E self t w = (t\<lparr>estado := Raised e\<rparr>, w1)"
    using assms by (simp add: descargar_imagen_def ruta_de_def)
  have b: "gather E self (i # sched) ts w = (Some (Inl e), ts[i := t\<lparr>estado := Raised e\<rparr>], w1)"
    if "i < length ts" "ts ! i = t" for ts i sched
  proof -
    from that assms(1) have "\<not> todas_terminadas ts"
      by (auto simp: todas_terminadas_def list_all_length)
    with that a show ?thesis by simp
  qed
  have c: "descargar_imagenes_concurrentes E self consulta cantidad sched w0 = (Some (Inl e), wb)"
    if "obtener_urls_imagenes E self consulta cantidad w0 = (Inr urls, wa)" "urls \<noteq> []"
      "lanzar E self sched urls wa = (Some (Inl e), ts, wb)"
    for consulta cantidad w0 urls wa sched ts wb
    using concurrentes_lanzar [OF that] by simp
  have d: "init E key dir wd = (Inl e', wd')" if "makedirs E dir wd = (Some e', wd')"
    for key dir wd e' wd'
    using that by (simp add: init_def)
  from a b c d show ?thesis by blast
qed

text \<open>
  C9 at work: the disk refuses \<^verbatim>\<open>imagen_1.jpg\<close>; and a directory is asked for below
  a file.
\<close>

theorem filesystem_failure_leaves_the_batch_witness:
  "descargar_imagen E_disco yo tarea_1 mundo = (tarea_1\<lparr>estado := Raised PermissionError\<rparr>, mundo)
   \<and> gather E_disco yo [0] [tarea_1] mundo =
       (Some (Inl PermissionError), [tarea_1\<lparr>estado := Raised PermissionError\<rparr>], mundo)
   \<and> fst (descargar_imagenes_concurrentes E_disco yo ''gatos'' 2 [0, 0] mundo)
       = Some (Inl PermissionError)
   \<and> fst (init E_disco ''clave'' [''imagenes_descargadas'', ''imagen_1.jpg'', ''x''] mundo_previo)
       = Inl NotADirectoryError"
proof -
  define W where "W = snd (obtener_urls_imagenes E_disco yo ''gatos'' 2 mundo)"
  define L where "L = lanzar E_disco yo [0, 0] dos_urls W"
  have a: "estado tarea_1 = AwaitBody" by (simp add: tarea_1_def)
  have b: "img E_disco (url tarea_1) = ImgResponse 200 (Some ''JPEG'')"
    by (simp add: tarea_1_def E_disco_def E_dos_def)
  have c: "escribir E_disco (ruta_de yo (nombre_archivo tarea_1)) ''JPEG'' mundo
           = (Some PermissionError, mundo)"
    by (simp add: escribir_def ruta_de_def yo_def tarea_1_def mundo_def is_dir_def
          exists_path_def E_disco_def E_dos_def)
  have "fst (obtener_urls_imagenes E_disco yo ''gatos'' 2 mundo) = Inr dos_urls" by code_simp
  then have o: "obtener_urls_imagenes E_disco yo ''gatos'' 2 mundo = (Inr dos_urls, W)"
    by (simp add: W_def prod_eq_iff)
  have n: "dos_urls \<noteq> []" by (simp add: dos_urls_def)
  have "fst L = Some (Inl PermissionError)" unfolding L_def W_def by code_simp
  then have l: "lanzar E_disco yo [0, 0] dos_urls W = (Some (Inl PermissionError), fst (snd L), snd (snd L))"
    by (simp add: L_def prod_eq_iff)
  note t = filesystem_failure_leaves_the_batch [OF a b c]
  from t have "descargar_imagen E_disco yo tarea_1 mundo
      = (tarea_1\<lparr>estado := Raised PermissionError\<rparr>, mundo)" by blast
  moreover from t have "gather E_disco yo [0] [tarea_1] mundo =
       (Some (Inl PermissionError), [tarea_1][0 := tarea_1\<lparr>estado := Raised PermissionError\<rparr>], mundo)"
    by simp
  moreover from t o n l
  have "descargar_imagenes_concurrentes E_disco yo ''gatos'' 2 [0, 0] mundo
          = (Some (Inl PermissionError), snd (snd L))" by blast
  moreover have "fst (init E_disco ''clave'' [''imagenes_descargadas'', ''imagen_1.jpg'', ''x''] mundo_previo)
       = Inl NotADirectoryError"
  proof -
    define M where "M = makedirs E_disco [''imagenes_descargadas'', ''imagen_1.jpg'', ''x''] mundo_previo"
    have "fst M = Some NotADirectoryError" unfolding M_def by code_simp
    then have "makedirs E_disco [''imagenes_descargadas'', ''imagen_1.jpg'', ''x''] mundo_previo
               = (Some NotADirectoryError, snd M)"
      by (simp add: M_def prod_eq_iff)
    with t have "init E_disco ''clave'' [''imagenes_descargadas'', ''imagen_1.jpg'', ''x''] mundo_previo
               = (Inl NotADirectoryError, snd M)" by blast
    then show ?thesis by simp
  qed
  ultimately show ?thesis by simp
qed

text \<open>
  C9 as the specification words it fails. Both images are served and only the first file
  is refused: the run ends with \<open>PermissionError\<close>, the second image, which nothing
  hinders, is never written, and nothing is reported. A directory that cannot be created
  ends the constructor in the same way.
\<close>

theorem write_failure_aborts_batch_counterexample:
  "fault E_disco [''imagenes_descargadas'', ''imagen_1.jpg''] = OpenFails
   \<and> fault E_disco [''imagenes_descargadas'', ''imagen_2.jpg''] = NoFault
   \<and> img E_disco (dos_urls ! 1) = ImgResponse 200 (Some ''JPEG'')
   \<and> fst (obtener_urls_imagenes E_disco yo ''gatos'' 2 mundo) = Inr dos_urls
   \<and> fst (descargar_imagenes_concurrentes E_disco yo ''gatos'' 2 [0, 0] mundo)
       = Some (Inl PermissionError)
   \<and> stdout (snd (descargar_imagenes_concurrentes E_disco yo ''gatos'' 2 [0, 0] mundo)) = []
   \<and> nodes (snd (descargar_imagenes_concurrentes E_disco yo ''gatos'' 2 [0, 0] mundo))
        [''imagenes_descargadas'', ''imagen_2.jpg''] = None
   \<and> fst (init E_sin_permiso ''clave'' [''imagenes_descargadas''] vacio) = Inl PermissionError"
  by code_simp

subsection \<open>C10: the output directory\<close>

text \<open>
  C10. On a well-formed file tree, a constructor that returns has made the directory and
  every missing parent, without any network traffic or output, and the directory is still
  there after any run of the downloader, also one that downloads nothing. It returns
  without touching anything when the directory exists, and it does return when nothing on
  the path is a file and the directories may be created.
\<close>

theorem constructor_creates_directory:
  assumes "wf_fs w"
  shows "(\<forall>self w'. init E key dir w = (Inr self, w') \<longrightarrow>
            self = \<lparr>api_key = key, directorio_imagenes = dir\<rparr>
            \<and> is_dir w' dir \<and> (\<forall>n\<le>length dir. is_dir w' (take n dir)) \<and> wf_fs w'
            \<and> traffic w' = traffic w \<and> stdout w' = stdout w
            \<and> (\<forall>consulta cantidad sched.
                  is_dir (snd (descargar_imagenes_concurrentes E self consulta cantidad sched w')) dir))
       \<and> (is_dir w dir \<longrightarrow> init E key dir w = (Inr \<lparr>api_key = key, directorio_imagenes = dir\<rparr>, w))
       \<and> ((\<forall>n. 0 < n \<and> n \<le> length dir \<longrightarrow>
              (nodes w (take n dir) = None \<or> nodes w (take n dir) = Some Dir)
              \<and> may_mkdir E (take n dir))
            \<longrightarrow> (\<exists>w'. init E key dir w = (Inr \<lparr>api_key = key, directorio_imagenes = dir\<rparr>, w')))"
proof -
  have a: "self = \<lparr>api_key = key, directorio_imagenes = dir\<rparr>
            \<and> is_dir w' dir \<and> (\<forall>n\<le>length dir. is_dir w' (take n dir)) \<and> wf_fs w'
            \<and> traffic w' = traffic w \<and> stdout w' = stdout w
            \<and> (\<forall>consulta cantidad sched.
                  is_dir (snd (descargar_imagenes_concurrentes E self consulta cantidad sched w')) dir)"
    if i: "init E key dir w = (Inr self, w')" for self w'
  proof -
    from i have m: "makedirs E dir w = (None, w')" and s: "self = \<lparr>api_key = key, directorio_imagenes = dir\<rparr>"
      by (auto simp: init_def split: prod.splits option.splits)
    from makedirs_is_dir [OF m] have d: "is_dir w' dir" .
    from makedirs_wf [OF m assms] have wf: "wf_fs w'" .
    from wf d have p: "\<forall>n\<le>length dir. is_dir w' (take n dir)" by (auto intro: wf_fs_prefix_dirs)
    from makedirs_frame [OF m] have f: "traffic w' = traffic w \<and> stdout w' = stdout w" by simp
    from d have "is_dir (snd (descargar_imagenes_concurrentes E self consulta cantidad sched w')) dir"
      for consulta cantidad sched by (simp add: concurrentes_is_dir)
    with s d wf p f show ?thesis by blast
  qed
  have b: "init E key dir w = (Inr \<lparr>api_key = key, directorio_imagenes = dir\<rparr>, w)" if "is_dir w dir"
    using makedirs_existing [OF assms that, of E] by (simp add: init_def)
  have c: "\<exists>w'. init E key dir w = (Inr \<lparr>api_key = key, directorio_imagenes = dir\<rparr>, w')"
    if "\<forall>n. 0 < n \<and> n \<le> length dir \<longrightarrow>
              (nodes w (take n dir) = None \<or> nodes w (take n dir) = Some Dir)
              \<and> may_mkdir E (take n dir)"
  proof -
    from makedirs_succeeds [OF assms that] obtain w' where "makedirs E dir w = (None, w')" by blast
    then show ?thesis by (simp add: init_def)
  qed
  from a b c show ?thesis by blast
qed

text \<open>C10 at work: a nested directory in an empty tree, and the directory that exists.\<close>

theorem constructor_creates_directory_witness:
  "(\<exists>w'. init E_dos ''clave'' [''datos'', ''imagenes''] vacio =
            (Inr \<lparr>api_key = ''clave'', directorio_imagenes = [''datos'', ''imagenes'']\<rparr>, w')
          \<and> is_dir w' [''datos'', ''imagenes''] \<and> is_dir w' [''datos''] \<and> traffic w' = [])
   \<and> init E_dos ''clave'' [''imagenes_descargadas''] mundo = (Inr yo, mundo)"
proof -
  have wf: "wf_fs vacio" by (simp add: wf_fs_def vacio_def)
  have wf2: "wf_fs mundo" by (auto simp: wf_fs_def mundo_def is_dir_def split: if_splits)
  have d: "is_dir mundo [''imagenes_descargadas'']" by (simp add: is_dir_def mundo_def)
  have p: "\<forall>n. 0 < n \<and> n \<le> length [''datos'', ''imagenes''] \<longrightarrow>
             (nodes vacio (take n [''datos'', ''imagenes'']) = None
              \<or> nodes vacio (take n [''datos'', ''imagenes'']) = Some Dir)
             \<and> may_mkdir E_dos (take n [''datos'', ''imagenes''])"
    by (simp add: vacio_def E_dos_def)
  note t = constructor_creates_directory [OF wf, of E_dos "''clave''" "[''datos'', ''imagenes'']"]
  from t have t3: "(\<forall>n. 0 < n \<and> n \<le> length [''datos'', ''imagenes''] \<longrightarrow>
             (nodes vacio (take n [''datos'', ''imagenes'']) = None
              \<or> nodes vacio (take n [''datos'', ''imagenes'']) = Some Dir)
             \<and> may_mkdir E_dos (take n [''datos'', ''imagenes'']))
        \<longrightarrow> (\<exists>w'. init E_dos ''clave'' [''datos'', ''imagenes''] vacio =
            (Inr \<lparr>api_key = ''clave'', directorio_imagenes = [''datos'', ''imagenes'']\<rparr>, w'))"
    by (rule conjunct2 [THEN conjunct2])
  from t3 p obtain w' where
    w': "init E_dos ''clave'' [''datos'', ''imagenes''] vacio =
            (Inr \<lparr>api_key = ''clave'', directorio_imagenes = [''datos'', ''imagenes'']\<rparr>, w')"
    by (elim impE exE)
  from t [THEN conjunct1, rule_format, OF w']
  have f: "is_dir w' [''datos'', ''imagenes'']"
    "\<forall>n\<le>length [''datos'', ''imagenes'']. is_dir w' (take n [''datos'', ''imagenes''])"
    "traffic w' = traffic vacio" by simp_all
  from f(2) have "is_dir w' (take 1 [''datos'', ''imagenes''])" by (elim allE [of _ 1]) simp
  then have "is_dir w' [''datos'']" by simp
  with w' f(1,3) have first: "\<exists>w'. init E_dos ''clave'' [''datos'', ''imagenes''] vacio =
            (Inr \<lparr>api_key = ''clave'', directorio_imagenes = [''datos'', ''imagenes'']\<rparr>, w')
          \<and> is_dir w' [''datos'', ''imagenes''] \<and> is_dir w' [''datos''] \<and> traffic w' = []"
    by (simp add: vacio_def)
  from constructor_creates_directory [OF wf2, of E_dos "''clave''" "[''imagenes_descargadas'']",
      THEN conjunct2, THEN conjunct1] d
  have "init E_dos ''clave'' [''imagenes_descargadas''] mundo = (Inr yo, mundo)"
    by (simp add: yo_def)
  with first show ?thesis by (rule conjI)
qed

end
